theory Spec2Isabelle
  imports Complex_Main "HOL-Library.Word"
begin

unbundle bit_operations_syntax

section \<open>Sample decoder\<close>

text \<open>
  The decoding functions of \<^verbatim>\<open>LiveMeasurementPage\<close> (lines 122-144 of the page
  component).  A \<^verbatim>\<open>Uint8Array\<close> is a list of bytes; reading it past its end gives
  \<^verbatim>\<open>undefined\<close>, which is \<open>None\<close> here.  The operators \<^verbatim>\<open><<\<close>, \<^verbatim>\<open>&\<close> and
  \<^verbatim>\<open>|\<close> convert their operands to 32-bit integers (\<^verbatim>\<open>undefined\<close> becomes 0) and
  give a signed 32-bit integer; the subtraction of 2048 is ordinary number arithmetic.
\<close>

type_synonym byte = "8 word"
type_synonym int32 = "32 word"

definition byteAt :: "byte list \<Rightarrow> nat \<Rightarrow> byte option" where
  "byteAt bytes i = (if i < length bytes then Some (bytes ! i) else None)"

definition toInt32 :: "byte option \<Rightarrow> int32" where
  "toInt32 v = (case v of None \<Rightarrow> 0 | Some b \<Rightarrow> ucast b)"

definition sampleV1 :: "byte option \<Rightarrow> byte option \<Rightarrow> int" where
  "sampleV1 b0 b2 = sint ((push_bit 4 (toInt32 b2) AND 0x0F00) OR toInt32 b0) - 2048"

definition sampleV2 :: "byte option \<Rightarrow> byte option \<Rightarrow> int" where
  "sampleV2 b1 b2 = sint ((push_bit 8 (toInt32 b2) AND 0x0F00) OR toInt32 b1) - 2048"

text \<open>The loop \<^verbatim>\<open>for (let i = 0; i < 54; i += 3)\<close> with its accumulator \<^verbatim>\<open>samples\<close>.\<close>

function decodeLoop :: "byte list \<Rightarrow> nat \<Rightarrow> int list \<Rightarrow> int list" where
  "decodeLoop bytes i samples =
     (if i < 54 then
        (let b0 = byteAt bytes i;
             b1 = byteAt bytes (i + 1);
             b2 = byteAt bytes (i + 2);
             v1 = sampleV1 b0 b2;
             v2 = sampleV2 b1 b2
         in decodeLoop bytes (i + 3) (samples @ [v1] @ [v2]))
      else samples)"
  by pat_completeness auto
termination
  by (relation "measure (\<lambda>(bytes, i, samples). 54 - i)") auto

declare decodeLoop.simps [simp del]

definition decodeBytesToSamples :: "byte list \<Rightarrow> int list" where
  "decodeBytesToSamples bytes = decodeLoop bytes 0 []"

subsection \<open>Hex text\<close>

text \<open>
  Strings are lists of 8-bit characters, so the white space of \<^verbatim>\<open>parseInt\<close>,
  \<^verbatim>\<open>trim\<close> and \<^verbatim>\<open>\s\<close> is the part of the language's white space and line
  terminators that lies in that range: TAB, LF, VT, FF, CR, SP and NBSP.
\<close>

definition isWhiteSpace :: "char \<Rightarrow> bool" where
  "isWhiteSpace c \<longleftrightarrow>
     c = CHR 0x09 \<or> c = CHR 0x0A \<or> c = CHR 0x0B \<or> c = CHR 0x0C \<or> c = CHR 0x0D \<or>
     c = CHR 0x20 \<or> c = CHR 0xA0"

definition isHexDigit :: "char \<Rightarrow> bool" where
  "isHexDigit c \<longleftrightarrow>
     (let n = (of_char c :: nat)
      in (48 \<le> n \<and> n \<le> 57) \<or> (65 \<le> n \<and> n \<le> 70) \<or> (97 \<le> n \<and> n \<le> 102))"

definition hexDigitValue :: "char \<Rightarrow> int" where
  "hexDigitValue c =
     (let n = (of_char c :: int)
      in if 48 \<le> n \<and> n \<le> 57 then n - 48
         else if 65 \<le> n \<and> n \<le> 70 then n - 55
         else if 97 \<le> n \<and> n \<le> 102 then n - 87
         else 0)"

text \<open>
  \<^verbatim>\<open>parseInt(s, 16)\<close>: skip leading white space, read a sign, skip a \<^verbatim>\<open>0x\<close> or
  \<^verbatim>\<open>0X\<close> prefix, and take the longest prefix of hex digits; \<open>None\<close> is \<^verbatim>\<open>NaN\<close>.
  The value is the exact integer (the decoder only passes strings of at most two
  characters, where no rounding occurs); the sign of a zero result is not kept.
\<close>

definition parseInt16 :: "string \<Rightarrow> int option" where
  "parseInt16 s =
     (let S = dropWhile isWhiteSpace s;
          sign = (case S of c # r \<Rightarrow> if c = CHR ''-'' then - 1 else 1 | [] \<Rightarrow> (1::int));
          S1 = (case S of c # r \<Rightarrow> if c = CHR ''-'' \<or> c = CHR ''+'' then r else S | [] \<Rightarrow> S);
          S2 = (case S1 of
                  a # b # r \<Rightarrow> if a = CHR ''0'' \<and> (b = CHR ''x'' \<or> b = CHR ''X'') then r else S1
                | _ \<Rightarrow> S1);
          Z = takeWhile isHexDigit S2
      in if Z = [] then None
         else Some (sign * foldl (\<lambda>acc c. 16 * acc + hexDigitValue c) 0 Z))"

text \<open>\<^verbatim>\<open>hexString.substr(i, 2)\<close>.\<close>

definition substr :: "string \<Rightarrow> nat \<Rightarrow> nat \<Rightarrow> string" where
  "substr s i n = take n (drop i s)"

text \<open>The loop \<^verbatim>\<open>for (let i = 0; i < hexString.length; i += 2)\<close> filling \<^verbatim>\<open>bytes\<close>.\<close>

function hexLoop :: "string \<Rightarrow> nat \<Rightarrow> int option list \<Rightarrow> int option list" where
  "hexLoop hexString i bytes =
     (if i < length hexString
      then hexLoop hexString (i + 2) (bytes @ [parseInt16 (substr hexString i 2)])
      else bytes)"
  by pat_completeness auto
termination
  by (relation "measure (\<lambda>(hexString, i, bytes). length hexString - i)") auto

declare hexLoop.simps [simp del]

text \<open>
  \<^verbatim>\<open>new Uint8Array(bytes)\<close> converts each number to a byte: \<^verbatim>\<open>NaN\<close> becomes 0, an
  integer is taken modulo 256.
\<close>

definition toUint8 :: "int option \<Rightarrow> byte" where
  "toUint8 v = (case v of None \<Rightarrow> 0 | Some n \<Rightarrow> word_of_int n)"

definition decodeHexToSamples :: "string \<Rightarrow> int list" where
  "decodeHexToSamples hexString = decodeBytesToSamples (map toUint8 (hexLoop hexString 0 []))"


section \<open>Strings and numbers of the host language\<close>

text \<open>\<^verbatim>\<open>s.trim()\<close>, \<^verbatim>\<open>s.indexOf(c)\<close> (\<open>None\<close> is \<open>-1\<close>) and \<^verbatim>\<open>s.includes(t)\<close>.\<close>

definition trim :: "string \<Rightarrow> string" where
  "trim s = rev (dropWhile isWhiteSpace (rev (dropWhile isWhiteSpace s)))"

fun indexOf :: "string \<Rightarrow> char \<Rightarrow> nat option" where
  "indexOf [] c = None"
| "indexOf (d # s) c = (if d = c then Some 0 else map_option Suc (indexOf s c))"

fun includesStr :: "string \<Rightarrow> string \<Rightarrow> bool" where
  "includesStr [] t = (t = [])"
| "includesStr (c # s) t = (take (length t) (c # s) = t \<or> includesStr s t)"

text \<open>Decimal and upper-case hexadecimal text of an integer (template literals, \<^verbatim>\<open>toString(16).toUpperCase()\<close>).\<close>

definition digitChar :: "nat \<Rightarrow> char" where
  "digitChar d = ''0123456789ABCDEF'' ! (d mod 16)"

function natToString :: "nat \<Rightarrow> nat \<Rightarrow> string" where
  "natToString radix n =
     (if radix < 2 \<or> n < radix then [digitChar n]
      else natToString radix (n div radix) @ [digitChar (n mod radix)])"
  by pat_completeness auto
termination
  by (relation "measure (\<lambda>(radix, n). n)") auto

declare natToString.simps [simp del]

definition intToString :: "nat \<Rightarrow> int \<Rightarrow> string" where
  "intToString radix k =
     (if k < 0 then CHR ''-'' # natToString radix (nat (- k)) else natToString radix (nat k))"

text \<open>\<^verbatim>\<open>new TextEncoder().encode(s)\<close>: UTF-8, for the characters a \<open>string\<close> holds.\<close>

definition encode :: "string \<Rightarrow> byte list" where
  "encode s =
     concat (map (\<lambda>c. let n = (of_char c :: nat)
                      in if n < 128 then [of_nat n]
                         else [of_nat (192 + n div 64), of_nat (128 + n mod 64)]) s)"

text \<open>
  A number: \<^verbatim>\<open>NaN\<close>, an infinity (\<open>True\<close> for the negative one) or a finite binary64
  value, given by the rational it denotes.  The sign of zero is not kept.
\<close>

datatype jsnum = NaN | Infinity bool | Finite rat

text \<open>The number of binary digits of a positive integer.\<close>

function bitLength :: "int \<Rightarrow> int" where
  "bitLength k = (if k \<le> 0 then 0 else 1 + bitLength (k div 2))"
  by pat_completeness auto
termination
  by (relation "measure nat") auto

declare bitLength.simps [simp del]

definition pow2 :: "int \<Rightarrow> rat" where
  "pow2 e = (if 0 \<le> e then of_int (2 ^ nat e) else 1 / of_int (2 ^ nat (- e)))"

definition roundHalfEven :: "rat \<Rightarrow> int" where
  "roundHalfEven x =
     (let f = \<lfloor>x\<rfloor>;
          rest = x - of_int f
      in if rest < 1 / 2 then f
         else if 1 / 2 < rest then f + 1
         else if even f then f else f + 1)"

text \<open>
  The number value of a real: the nearest binary64 value, ties to even.  With \<open>e\<close> the
  binary exponent of \<open>\<bar>q\<bar>\<close> (so \<open>2 ^ e \<le> \<bar>q\<bar> < 2 ^ (e + 1)\<close>), the values near \<open>q\<close> are
  the multiples \<open>m * ulp\<close> of \<open>ulp = 2 ^ (e - 52)\<close>, or of \<open>2 ^ (- 1074)\<close> below the
  normal range; a result of \<open>2 ^ 1024\<close> or more is an infinity.
\<close>

definition toBinary64 :: "rat \<Rightarrow> jsnum" where
  "toBinary64 q =
     (if q = 0 then Finite 0
      else (let a = \<bar>q\<bar>;
                b = bitLength (fst (quotient_of a)) - bitLength (snd (quotient_of a));
                e = (if pow2 b \<le> a then b else b - 1);
                ulp = pow2 (max e (- 1022) - 52);
                m = roundHalfEven (a / ulp)
            in if 1024 \<le> e \<or> (e = 1023 \<and> m = 2 ^ 53) then Infinity (q < 0)
               else Finite (if q < 0 then - (of_int m * ulp) else of_int m * ulp)))"

definition isDecimalDigit :: "char \<Rightarrow> bool" where
  "isDecimalDigit c \<longleftrightarrow> (let n = (of_char c :: nat) in 48 \<le> n \<and> n \<le> 57)"

definition digitsValue :: "int \<Rightarrow> string \<Rightarrow> int" where
  "digitsValue radix ds = foldl (\<lambda>acc c. radix * acc + hexDigitValue c) 0 ds"

definition isRadixDigit :: "int \<Rightarrow> char \<Rightarrow> bool" where
  "isRadixDigit radix c \<longleftrightarrow> isHexDigit c \<and> hexDigitValue c < radix"

text \<open>
  The literals \<^verbatim>\<open>0x..\<close>, \<^verbatim>\<open>0o..\<close> and \<^verbatim>\<open>0b..\<close> (either case of the letter), with at
  least one digit and no sign.
\<close>

definition nonDecimalIntegerLiteral :: "string \<Rightarrow> int option" where
  "nonDecimalIntegerLiteral t =
     (case t of
        z # p # ds \<Rightarrow>
          (let radix = (if p = CHR ''x'' \<or> p = CHR ''X'' then 16
                        else if p = CHR ''o'' \<or> p = CHR ''O'' then 8
                        else if p = CHR ''b'' \<or> p = CHR ''B'' then 2
                        else (0::int))
           in if z = CHR ''0'' \<and> radix \<noteq> 0 \<and> ds \<noteq> [] \<and> list_all (isRadixDigit radix) ds
              then Some (digitsValue radix ds) else None)
      | _ \<Rightarrow> None)"

text \<open>
  The exponent part: empty (exponent 0), or \<^verbatim>\<open>e\<close>/\<^verbatim>\<open>E\<close>, an optional sign and at
  least one digit; \<open>None\<close> when the text is neither.
\<close>

definition exponentPart :: "string \<Rightarrow> int option" where
  "exponentPart t =
     (case t of
        [] \<Rightarrow> Some 0
      | e # u \<Rightarrow>
          if e = CHR ''e'' \<or> e = CHR ''E'' then
            (let neg = (case u of c # _ \<Rightarrow> c = CHR ''-'' | [] \<Rightarrow> False);
                 ds = (case u of c # v \<Rightarrow> if c = CHR ''-'' \<or> c = CHR ''+'' then v else u | [] \<Rightarrow> u)
             in if ds \<noteq> [] \<and> list_all isDecimalDigit ds
                then Some (if neg then - digitsValue 10 ds else digitsValue 10 ds)
                else None)
          else None)"

definition scale10 :: "int \<Rightarrow> int \<Rightarrow> rat" where
  "scale10 m e = (if 0 \<le> e then of_int m * 10 ^ nat e else of_int m / 10 ^ nat (- e))"

text \<open>
  An unsigned decimal literal: digits, an optional point with digits (one side of the
  point may be empty, not both), an optional exponent part.
\<close>

definition unsignedDecimalLiteral :: "string \<Rightarrow> rat option" where
  "unsignedDecimalLiteral t =
     (let ip = takeWhile isDecimalDigit t;
          r1 = dropWhile isDecimalDigit t;
          hasPoint = (case r1 of c # _ \<Rightarrow> c = CHR ''.'' | [] \<Rightarrow> False);
          r2 = (if hasPoint then tl r1 else r1);
          fp = (if hasPoint then takeWhile isDecimalDigit r2 else []);
          r3 = (if hasPoint then dropWhile isDecimalDigit r2 else r2)
      in if ip = [] \<and> fp = [] then None
         else (case exponentPart r3 of
                 None \<Rightarrow> None
               | Some e \<Rightarrow> Some (scale10 (digitsValue 10 (ip @ fp)) (e - int (length fp)))))"

text \<open>
  \<^verbatim>\<open>Number(s)\<close> for a string \<open>s\<close>: the number value of what the literal denotes.
  (For a literal of more than 20 significant digits the language lets an implementation
  round the digits first; this is the conversion without that step.)
\<close>

definition Number :: "string \<Rightarrow> jsnum" where
  "Number s =
     (let t = trim s in
      if t = [] then Finite 0
      else (case nonDecimalIntegerLiteral t of
              Some n \<Rightarrow> toBinary64 (of_int n)
            | None \<Rightarrow>
                (let neg = (case t of c # _ \<Rightarrow> c = CHR ''-'' | [] \<Rightarrow> False);
                     u = (case t of c # v \<Rightarrow> if c = CHR ''-'' \<or> c = CHR ''+'' then v else t | [] \<Rightarrow> t)
                 in if u = ''Infinity'' then Infinity neg
                    else (case unsignedDecimalLiteral u of
                            None \<Rightarrow> NaN
                          | Some q \<Rightarrow> toBinary64 (if neg then - q else q)))))"

definition isNaN :: "jsnum \<Rightarrow> bool" where
  "isNaN v \<longleftrightarrow> v = NaN"

definition isInteger :: "jsnum \<Rightarrow> bool" where
  "isInteger v \<longleftrightarrow> (case v of Finite q \<Rightarrow> q = of_int \<lfloor>q\<rfloor> | _ \<Rightarrow> False)"

text \<open>\<^verbatim>\<open>v < 0\<close> and \<^verbatim>\<open>v > 15\<close>: every comparison with \<^verbatim>\<open>NaN\<close> is false.\<close>

definition numLess :: "jsnum \<Rightarrow> rat \<Rightarrow> bool" where
  "numLess v c \<longleftrightarrow> (case v of NaN \<Rightarrow> False | Infinity neg \<Rightarrow> neg | Finite q \<Rightarrow> q < c)"

definition numGreater :: "jsnum \<Rightarrow> rat \<Rightarrow> bool" where
  "numGreater v c \<longleftrightarrow> (case v of NaN \<Rightarrow> False | Infinity neg \<Rightarrow> \<not> neg | Finite q \<Rightarrow> c < q)"

text \<open>The integer an integral number holds (used only after \<open>isInteger\<close>).\<close>

definition intOf :: "jsnum \<Rightarrow> int" where
  "intOf v = (case v of Finite q \<Rightarrow> \<lfloor>q\<rfloor> | _ \<Rightarrow> 0)"


section \<open>The page's state\<close>

datatype ConnectionMode = Serial | Bluetooth
datatype ConnStatus = Disconnected | Connected | Error
datatype LogType = Info | Command | Response | ErrorLog | Warning

record LivePoint =
  pt_x :: int
  pt_raw :: int
  pt_filtered :: int
  pt_seq :: "int option"

text \<open>A log entry without its wall-clock time stamp; messages are kept without their pictographs.\<close>

record LogEntry =
  logType :: LogType
  message :: string

definition MAX_PLOT :: nat where
  "MAX_PLOT = 2000"

text \<open>An exception value: its \<^verbatim>\<open>name\<close> and its \<^verbatim>\<open>message\<close>.\<close>

datatype exn = Exn (exn_name: string) (exn_message: string)

text \<open>
  What the page does to the outside: calls on the serial port, on the GATT server and
  its characteristics, on the directory handle, and timer waits (in milliseconds).
\<close>

datatype io_event =
    SerialRequestPort | SerialOpen | SerialClose
  | SerialGetReader | SerialRead | SerialReaderCancel | SerialReaderReleaseLock
  | SerialGetWriter | SerialWrite "byte list" | SerialWriterReleaseLock
  | BLERequestDevice | BLEAddDisconnectListener | BLEGattConnect | BLEGattDisconnect
  | BLEGetPrimaryService | BLEGetRxCharacteristic | BLEGetTxCharacteristic
  | BLEStartNotifications | BLEStopNotifications | BLEAddListener | BLERemoveListener
  | BLEWrite "byte list"
  | FSGetFileHandle string | FSCreateWritable | FSWrite string | FSClose
  | Delay nat

text \<open>
  The object in \<^verbatim>\<open>bleDeviceRef.current\<close>: device and characteristics are set when
  the object is; \<open>server\<close> tells whether its \<^verbatim>\<open>server\<close> field is still non-null.
\<close>

datatype BleDevice = BleDevice (server: bool)

text \<open>
  The state a handler works on.  The \<open>st_\<close> fields are the component's state as the
  setters leave it for the next render; the others are the refs (a handle is \<open>True\<close>
  when non-null) and the calls made so far.
\<close>

record world =
  st_isRunning :: bool
  st_liveData :: "LivePoint list"
  st_connStatus :: ConnStatus
  st_logs :: "LogEntry list"
  st_xStart :: int
  st_zoomRange :: int
  st_yShift :: int
  st_yZoom :: int
  serialPortRef :: bool
  serialReaderRef :: bool
  bleDeviceRef :: "BleDevice option"
  streamingRef :: bool
  bleHandlerRef :: bool
  csvDataRef :: "int list"
  trace :: "io_event list"

text \<open>
  The values a handler closes over: the component's state as it was at the render that
  created the handler.  A setter does not change them.
\<close>

record render =
  mode :: ConnectionMode
  gainValue :: string
  isRunning :: bool
  connStatus :: ConnStatus
  csvEnabled :: bool
  csvDir :: string
  folderHandle :: bool

text \<open>
  The environment: whether a call throws, given the calls made before it; what
  \<^verbatim>\<open>server.connected\<close> reads; the two capability tests; the selected device's name;
  the clock's \<^verbatim>\<open>toISOString()\<close>.
\<close>

record env =
  throws :: "io_event list \<Rightarrow> io_event \<Rightarrow> exn option"
  gattConnected :: "io_event list \<Rightarrow> bool"
  supportsWebSerial :: bool
  supportsWebBluetooth :: bool
  deviceName :: string
  toISOString :: string

subsection \<open>Statements\<close>

text \<open>
  A statement runs on a state and ends normally or by throwing; a \<^verbatim>\<open>try\<close> block is
  a list of statements run in order up to the first one that throws.
\<close>

datatype outcome = Done world | Thrown exn world

type_synonym step = "world \<Rightarrow> outcome"

definition act :: "(world \<Rightarrow> world) \<Rightarrow> step" where
  "act f w = Done (f w)"

definition emit :: "io_event \<Rightarrow> world \<Rightarrow> world" where
  "emit e w = w\<lparr>trace := trace w @ [e]\<rparr>"

definition io :: "env \<Rightarrow> io_event \<Rightarrow> step" where
  "io E e w = (case throws E (trace w) e of None \<Rightarrow> Done (emit e w) | Some x \<Rightarrow> Thrown x (emit e w))"

definition throw :: "exn \<Rightarrow> step" where
  "throw x w = Thrown x w"

fun block :: "step list \<Rightarrow> step" where
  "block [] w = Done w"
| "block (s # ss) w = (case s w of Done w' \<Rightarrow> block ss w' | Thrown x w' \<Rightarrow> Thrown x w')"

definition ifThen :: "(world \<Rightarrow> bool) \<Rightarrow> step \<Rightarrow> step" where
  "ifThen c s w = (if c w then s w else Done w)"

definition ifElse :: "(world \<Rightarrow> bool) \<Rightarrow> step \<Rightarrow> step \<Rightarrow> step" where
  "ifElse c s t w = (if c w then s w else t w)"

definition tryCatch :: "step \<Rightarrow> (exn \<Rightarrow> step) \<Rightarrow> step" where
  "tryCatch body handler w = (case body w of Done w' \<Rightarrow> Done w' | Thrown x w' \<Rightarrow> handler x w')"

definition ignore :: "exn \<Rightarrow> step" where
  "ignore x w = Done w"

text \<open>The state a statement leaves, however it ends.\<close>

definition final :: "outcome \<Rightarrow> world" where
  "final out = (case out of Done w \<Rightarrow> w | Thrown x w \<Rightarrow> w)"

definition addLog :: "LogType \<Rightarrow> string \<Rightarrow> world \<Rightarrow> world" where
  "addLog t m w = w\<lparr>st_logs := st_logs w @ [\<lparr>logType = t, message = m\<rparr>]\<rparr>"

definition toUpperCase :: "ConnectionMode \<Rightarrow> string" where
  "toUpperCase m = (case m of Serial \<Rightarrow> ''SERIAL'' | Bluetooth \<Rightarrow> ''BLUETOOTH'')"

text \<open>The events a run added to the trace.\<close>

definition newEvents :: "world \<Rightarrow> world \<Rightarrow> io_event list" where
  "newEvents w w' = drop (length (trace w)) (trace w')"


section \<open>Live buffer\<close>

text \<open>
  The updater passed to \<^verbatim>\<open>setLiveData\<close>, the same text in \<^verbatim>\<open>readSerialData\<close>
  (lines 290-307) and in \<^verbatim>\<open>handleBLEData\<close> (lines 580-597): push a point per
  sample, keep the last \<open>MAX_PLOT\<close> points, renumber \<open>x\<close>.
\<close>

definition liveUpdater :: "int \<Rightarrow> int list \<Rightarrow> LivePoint list \<Rightarrow> LivePoint list" where
  "liveUpdater seq samples prev =
     (let next = foldl (\<lambda>next s. next @ [\<lparr>pt_x = 0, pt_raw = s, pt_filtered = s, pt_seq = Some seq\<rparr>])
                   prev samples;
          next = (if length next > MAX_PLOT then drop (length next - MAX_PLOT) next else next)
      in map (\<lambda>(i, p). p\<lparr>pt_x := int i\<rparr>) (enumerate 0 next))"

definition setLiveData :: "(LivePoint list \<Rightarrow> LivePoint list) \<Rightarrow> world \<Rightarrow> world" where
  "setLiveData f w = w\<lparr>st_liveData := f (st_liveData w)\<rparr>"

section \<open>CSV accumulator\<close>

text \<open>The rows \<^verbatim>\<open>`${index},${value}\n`\<close> appended by \<^verbatim>\<open>forEach\<close>.\<close>

definition csvRows :: "int list \<Rightarrow> string" where
  "csvRows vs =
     concat (map (\<lambda>(index, v). natToString 10 index @ '','' @ intToString 10 v @ [CHR 0x0A])
               (enumerate 0 vs))"

definition csvTimestamp :: "env \<Rightarrow> string" where
  "csvTimestamp E =
     (let t = map (\<lambda>c. if c = CHR '':'' \<or> c = CHR ''.'' then CHR ''-'' else c) (toISOString E)
      in take (length t - 5) t)"

definition saveCSVIfEnabled :: "env \<Rightarrow> render \<Rightarrow> step" where
  "saveCSVIfEnabled E r =
     ifElse (\<lambda>w. \<not> csvEnabled r \<or> \<not> folderHandle r \<or> length (csvDataRef w) = 0)
       (act (\<lambda>w. w\<lparr>csvDataRef := []\<rparr>))
       (tryCatch
          (\<lambda>w. (let timestamp = csvTimestamp E;
                     filename = ''data_'' @ timestamp @ ''.csv'';
                     csvContent = ''index,raw'' @ [CHR 0x0A] @ csvRows (csvDataRef w)
                 in block
                      [io E (FSGetFileHandle filename),
                       io E FSCreateWritable,
                       io E (FSWrite csvContent),
                       io E FSClose,
                       act (\<lambda>w. addLog Response
                              (''CSV saved to '' @ csvDir r @ ''/'' @ filename @ '' ('' @
                                 natToString 10 (length (csvDataRef w)) @ '' samples)'') w),
                       act (\<lambda>w. w\<lparr>csvDataRef := []\<rparr>)] w))
          (\<lambda>err. block
             [act (addLog ErrorLog (''Failed to save CSV: '' @ exn_message err)),
              act (\<lambda>w. w\<lparr>csvDataRef := []\<rparr>)]))"


section \<open>Serial transport\<close>

definition CRLF :: string where
  "CRLF = [CHR 0x0D, CHR 0x0A]"

definition setConnStatus :: "ConnStatus \<Rightarrow> world \<Rightarrow> world" where
  "setConnStatus v w = w\<lparr>st_connStatus := v\<rparr>"

definition setIsRunning :: "bool \<Rightarrow> world \<Rightarrow> world" where
  "setIsRunning v w = w\<lparr>st_isRunning := v\<rparr>"

text \<open>
  The end of \<^verbatim>\<open>readSerialData\<close> after its loop: \<^verbatim>\<open>reader.releaseLock()\<close> and the
  reader ref cleared.
\<close>

definition readFinish :: "world \<Rightarrow> world" where
  "readFinish w = (emit SerialReaderReleaseLock w)\<lparr>serialReaderRef := False\<rparr>"

text \<open>
  \<^verbatim>\<open>await serialReaderRef.current.cancel()\<close>.  The reader ref is set only while
  \<^verbatim>\<open>readSerialData\<close> waits on a \<^verbatim>\<open>read()\<close>.  The cancel closes the stream first, which
  resolves that read with \<^verbatim>\<open>done\<close>; the reader's loop then runs to its end (the warning
  in the log, \<^verbatim>\<open>releaseLock\<close>, the ref cleared) before the caller goes on after its
  \<^verbatim>\<open>await\<close>, whether the cancel is fulfilled or rejected.
\<close>

definition readerWoken :: "world \<Rightarrow> world" where
  "readerWoken w = readFinish (addLog Warning ''Serial stream ended'' w)"

definition cancelReader :: "env \<Rightarrow> step" where
  "cancelReader E w =
     (case io E SerialReaderCancel w of
        Done w' \<Rightarrow> Done (readerWoken w')
      | Thrown x w' \<Rightarrow> Thrown x (readerWoken w'))"

definition connectSerial :: "env \<Rightarrow> step" where
  "connectSerial E =
     tryCatch
       (ifElse (\<lambda>w. \<not> supportsWebSerial E)
          (act (addLog ErrorLog ''Web Serial API not supported. Use Chrome/Edge 89+''))
          (block
             [ifThen serialPortRef
                (block
                   [tryCatch
                      (block
                         [act (\<lambda>w. w\<lparr>streamingRef := False\<rparr>),
                          ifThen serialReaderRef
                            (block [cancelReader E, act (\<lambda>w. w\<lparr>serialReaderRef := False\<rparr>)]),
                          io E SerialClose,
                          act (addLog Info ''Closed previous serial port''),
                          act (emit (Delay 300))])
                      ignore,
                    act (\<lambda>w. w\<lparr>serialPortRef := False\<rparr>)]),
              act (addLog Info ''Requesting serial port...''),
              io E SerialRequestPort,
              io E SerialOpen,
              act (addLog Info ''Serial port opened (115200 baud)''),
              act (\<lambda>w. w\<lparr>serialPortRef := True\<rparr>),
              act (setConnStatus Connected),
              act (addLog Info ''Serial device connected and ready'')]))
       (\<lambda>err. block
          [(if exn_name err = ''NotFoundError''
            then act (addLog Info ''No port selected'')
            else block
                   [act (addLog ErrorLog (''Serial connection failed: '' @ exn_message err)),
                    act (setConnStatus Error)]),
           ifThen serialPortRef
             (block [tryCatch (io E SerialClose) ignore, act (\<lambda>w. w\<lparr>serialPortRef := False\<rparr>)])])"

subsection \<open>Inbound lines\<close>

text \<open>
  \<^verbatim>\<open>line.match(/^\s*([0-9A-Fa-f]+)\s*:\s*([0-9A-Fa-f]{108})\s*$/)\<close>, giving the two
  groups.  White space, hex digits and the colon are disjoint classes, so the greedy
  match of each part is the only one.
\<close>

definition matchFrame :: "string \<Rightarrow> (string \<times> string) option" where
  "matchFrame line =
     (let s0 = dropWhile isWhiteSpace line;
          m1 = takeWhile isHexDigit s0;
          s1 = dropWhile isWhiteSpace (dropWhile isHexDigit s0)
      in if m1 = [] then None
         else (case s1 of
                 [] \<Rightarrow> None
               | c # s2 \<Rightarrow>
                   if c \<noteq> CHR '':'' then None
                   else (let s3 = dropWhile isWhiteSpace s2;
                             m2 = take 108 s3;
                             s4 = drop 108 s3
                         in if length m2 = 108 \<and> list_all isHexDigit m2 \<and> list_all isWhiteSpace s4
                            then Some (m1, m2) else None)))"

text \<open>
  \<^verbatim>\<open>parseInt(match[1], 16) & 0xFF\<close>: the parsed integer as a number value, then the
  low byte of its 32-bit conversion (0 for \<^verbatim>\<open>NaN\<close> and for an infinity).
\<close>

definition lowByte :: "int option \<Rightarrow> int" where
  "lowByte v =
     (case v of
        None \<Rightarrow> 0
      | Some n \<Rightarrow> (case toBinary64 (of_int n) of Finite q \<Rightarrow> \<lfloor>q\<rfloor> mod 256 | _ \<Rightarrow> 0))"

text \<open>The body of \<^verbatim>\<open>if (line) { ... }\<close> for one trimmed line.\<close>

definition processLine :: "render \<Rightarrow> string \<Rightarrow> world \<Rightarrow> world" where
  "processLine r line w =
     (if line = [] then w
      else (case matchFrame line of
              None \<Rightarrow> w
            | Some (m1, m2) \<Rightarrow>
                (let seq = lowByte (parseInt16 m1);
                     hexData = m2;
                     samples = decodeHexToSamples hexData;
                     w1 = (if csvEnabled r then w\<lparr>csvDataRef := csvDataRef w @ samples\<rparr> else w)
                 in setLiveData (liveUpdater seq samples) w1)))"

text \<open>The loop \<^verbatim>\<open>while ((newlineIndex = buffer.indexOf('\n')) >= 0)\<close>; it returns the rest of the buffer.\<close>

function drainLines :: "render \<Rightarrow> string \<Rightarrow> world \<Rightarrow> string \<times> world" where
  "drainLines r buffer w =
     (case indexOf buffer (CHR 0x0A) of
        None \<Rightarrow> (buffer, w)
      | Some newlineIndex \<Rightarrow>
          (let line = trim (take newlineIndex buffer);
               buffer' = drop (newlineIndex + 1) buffer
           in drainLines r buffer' (processLine r line w)))"
  by pat_completeness auto
termination
proof (relation "measure (\<lambda>(r, buffer, w). length buffer)")
  show "wf (measure (\<lambda>(r, buffer, w). length buffer))" by simp
next
  fix r :: render and buffer :: string and w :: world and newlineIndex line buffer'
  assume "indexOf buffer (CHR 0x0A) = Some newlineIndex"
    and "buffer' = drop (newlineIndex + 1) buffer"
  moreover from this have "buffer \<noteq> []" by (cases buffer) auto
  ultimately show "((r, buffer', processLine r line w), (r, buffer, w))
      \<in> measure (\<lambda>(r, buffer, w). length buffer)" by simp
qed

declare drainLines.simps [simp del]

text \<open>
  What a call of \<^verbatim>\<open>reader.read()\<close> resolves to: a chunk (as the text the streaming
  decoder makes of it), the end of the stream, or a rejection.
\<close>

datatype read_result = Chunk string | EndOfStream | ReadRejected exn

text \<open>
  The loop \<^verbatim>\<open>while (streamingRef.current)\<close> over the reads that have resolved so
  far; when they are used up the function is waiting on the next \<^verbatim>\<open>read()\<close>.
\<close>

fun readLoop :: "render \<Rightarrow> read_result list \<Rightarrow> string \<Rightarrow> step" where
  "readLoop r [] buffer w =
     (if streamingRef w then Done (emit SerialRead w) else Done (readFinish w))"
| "readLoop r (res # rest) buffer w =
     (if streamingRef w then
        (case res of
           ReadRejected x \<Rightarrow> Thrown x (emit SerialRead w)
         | EndOfStream \<Rightarrow> Done (readFinish (addLog Warning ''Serial stream ended'' (emit SerialRead w)))
         | Chunk text \<Rightarrow>
             (case drainLines r (buffer @ text) (emit SerialRead w) of
                (buffer', w') \<Rightarrow> readLoop r rest buffer' w'))
      else Done (readFinish w))"

definition readSerialData :: "env \<Rightarrow> render \<Rightarrow> read_result list \<Rightarrow> step" where
  "readSerialData E r reads =
     ifElse (\<lambda>w. \<not> serialPortRef w \<or> \<not> streamingRef w)
       (act (\<lambda>w. w))
       (tryCatch
          (block
             [io E SerialGetReader,
              act (\<lambda>w. w\<lparr>serialReaderRef := True\<rparr>),
              readLoop r reads []])
          (\<lambda>err. block
             [ifThen streamingRef
                (block
                   [act (addLog ErrorLog (''Serial read error: '' @ exn_message err)),
                    act (\<lambda>w. w\<lparr>streamingRef := False\<rparr>),
                    act (setIsRunning False)]),
              ifThen serialReaderRef
                (block
                   [act (emit SerialReaderReleaseLock),
                    act (\<lambda>w. w\<lparr>serialReaderRef := False\<rparr>)])]))"

text \<open>
  \<^verbatim>\<open>startSerialStreaming\<close> calls \<^verbatim>\<open>readSerialData()\<close> without awaiting it: the
  reader runs up to its first \<^verbatim>\<open>read()\<close>.
\<close>

definition startSerialStreaming :: "env \<Rightarrow> render \<Rightarrow> step" where
  "startSerialStreaming E r =
     ifElse (\<lambda>w. \<not> serialPortRef w)
       (act (addLog ErrorLog ''No serial port connected''))
       (tryCatch
          (block
             [io E SerialGetWriter,
              io E (SerialWrite (encode (''S0'' @ CRLF))),
              act (emit SerialWriterReleaseLock),
              act (\<lambda>w. w\<lparr>streamingRef := True\<rparr>),
              act (setIsRunning True),
              act (addLog Info ''Serial streaming started''),
              readSerialData E r []])
          (\<lambda>err. block
             [act (addLog ErrorLog (''Serial streaming failed: '' @ exn_message err)),
              act (\<lambda>w. w\<lparr>streamingRef := False\<rparr>),
              act (setIsRunning False)]))"

definition stopSerialStreaming :: "env \<Rightarrow> render \<Rightarrow> step" where
  "stopSerialStreaming E r =
     ifElse (\<lambda>w. \<not> serialPortRef w)
       (act (\<lambda>w. w))
       (tryCatch
          (block
             [act (\<lambda>w. w\<lparr>streamingRef := False\<rparr>),
              ifThen serialReaderRef
                (block [cancelReader E, act (\<lambda>w. w\<lparr>serialReaderRef := False\<rparr>)]),
              act (emit (Delay 100)),
              io E SerialGetWriter,
              io E (SerialWrite (encode (''B0'' @ CRLF))),
              act (emit SerialWriterReleaseLock),
              act (setIsRunning False),
              act (addLog Info ''Serial streaming stopped''),
              saveCSVIfEnabled E r])
          (\<lambda>err. act (addLog ErrorLog (''Serial stop error: '' @ exn_message err))))"

definition setSerialGain :: "env \<Rightarrow> int \<Rightarrow> step" where
  "setSerialGain E newGain =
     ifElse (\<lambda>w. \<not> serialPortRef w)
       (act (\<lambda>w. w))
       (tryCatch
          (let gainHex = intToString 16 newGain
           in block
                [io E SerialGetWriter,
                 io E (SerialWrite (encode (''G'' @ gainHex @ CRLF))),
                 act (emit SerialWriterReleaseLock),
                 act (addLog Info (''Serial gain set to '' @ intToString 10 newGain))])
          (\<lambda>err. act (addLog ErrorLog (''Serial gain error: '' @ exn_message err))))"


section \<open>Bluetooth transport\<close>

text \<open>\<^verbatim>\<open>bleDeviceRef.current.server && bleDeviceRef.current.server.connected\<close>.\<close>

definition serverLive :: "env \<Rightarrow> world \<Rightarrow> bool" where
  "serverLive E w = (case bleDeviceRef w of None \<Rightarrow> False | Some d \<Rightarrow> server d \<and> gattConnected E (trace w))"

text \<open>The listener for \<^verbatim>\<open>gattserverdisconnected\<close>.\<close>

definition disconnectHandler :: "world \<Rightarrow> world" where
  "disconnectHandler w =
     (let w1 = addLog Warning ''BLE device disconnected unexpectedly'' w;
          w2 = setConnStatus Disconnected w1;
          w3 = w2\<lparr>streamingRef := False\<rparr>;
          w4 = setIsRunning False w3
      in (case bleDeviceRef w4 of None \<Rightarrow> w4 | Some d \<Rightarrow> w4\<lparr>bleDeviceRef := Some (BleDevice False)\<rparr>))"

text \<open>
  The loop \<^verbatim>\<open>while (!server && connectAttempts < maxConnectAttempts)\<close> and the test
  \<^verbatim>\<open>if (!server)\<close> after it: it ends normally when a connection attempt succeeded.
\<close>

function gattConnectLoop :: "env \<Rightarrow> nat \<Rightarrow> step" where
  "gattConnectLoop E connectAttempts w =
     (if connectAttempts < 3 then
        (case io E BLEGattConnect w of
           Done w' \<Rightarrow> Done (addLog Info ''GATT server connected'' w')
         | Thrown x w' \<Rightarrow>
             (if connectAttempts + 1 < 3
              then gattConnectLoop E (connectAttempts + 1)
                     (emit (Delay 1000)
                        (addLog Warning
                           (''Connection attempt '' @ natToString 10 (connectAttempts + 1) @
                              '' failed, retrying...'') w'))
              else Thrown (Exn ''Error'' ''Failed to connect to GATT server after multiple attempts.'') w'))
      else Thrown (Exn ''Error'' ''Failed to establish GATT connection'') w)"
  by pat_completeness auto
termination
  by (relation "measure (\<lambda>(E, connectAttempts, w). 3 - connectAttempts)") auto

declare gattConnectLoop.simps [simp del]

definition bleErrorMessage :: "exn \<Rightarrow> string" where
  "bleErrorMessage err =
     (let errorMsg = (if exn_message err = [] then ''Unknown error'' else exn_message err)
      in if includesStr errorMsg ''User cancelled'' then ''Device selection cancelled''
         else if includesStr errorMsg ''Connection attempt failed''
           then ''Connection failed. Try: Reset device, move closer, check battery''
         else if includesStr errorMsg ''GATT Server is disconnected''
           then ''Device disconnected during setup. Try: Reset device and connect immediately after power-on''
         else errorMsg)"

definition connectBLE :: "env \<Rightarrow> step" where
  "connectBLE E =
     tryCatch
       (ifElse (\<lambda>w. \<not> supportsWebBluetooth E)
          (act (addLog ErrorLog ''Web Bluetooth not supported. Use Chrome/Edge/Opera with HTTPS''))
          (block
             [ifThen (\<lambda>w. bleDeviceRef w \<noteq> None)
                (block
                   [tryCatch
                      (block
                         [act (\<lambda>w. w\<lparr>streamingRef := False\<rparr>),
                          ifThen bleHandlerRef
                            (block [act (emit BLERemoveListener), act (\<lambda>w. w\<lparr>bleHandlerRef := False\<rparr>)]),
                          tryCatch (io E BLEStopNotifications) ignore,
                          ifThen (serverLive E) (io E BLEGattDisconnect),
                          act (addLog Info ''Disconnected previous BLE device''),
                          act (emit (Delay 500))])
                      ignore,
                    act (\<lambda>w. w\<lparr>bleDeviceRef := None\<rparr>)]),
              act (addLog Info ''Requesting Bluetooth device...''),
              io E BLERequestDevice,
              act (addLog Info
                     (''Device selected: '' @ (if deviceName E = [] then ''Unknown'' else deviceName E))),
              act (emit BLEAddDisconnectListener),
              act (addLog Info ''Connecting to GATT server...''),
              gattConnectLoop E 0,
              act (emit (Delay 300)),
              ifThen (\<lambda>w. \<not> gattConnected E (trace w))
                (throw (Exn ''Error'' ''GATT server disconnected immediately after connection.'')),
              act (addLog Info ''Getting primary service...''),
              io E BLEGetPrimaryService,
              act (addLog Info ''Service found''),
              act (addLog Info ''Getting characteristics...''),
              io E BLEGetRxCharacteristic,
              io E BLEGetTxCharacteristic,
              act (addLog Info ''Characteristics found''),
              ifThen (\<lambda>w. \<not> gattConnected E (trace w))
                (throw (Exn ''Error'' ''Device disconnected while getting characteristics'')),
              act (\<lambda>w. w\<lparr>bleDeviceRef := Some (BleDevice True)\<rparr>),
              act (setConnStatus Connected),
              act (addLog Info ''BLE connected and ready'')]))
       (\<lambda>err. block
          [act (addLog ErrorLog (''BLE connection failed: '' @ bleErrorMessage err)),
           act (setConnStatus Error),
           ifThen (\<lambda>w. bleDeviceRef w \<noteq> None)
             (block
                [tryCatch (ifThen (serverLive E) (io E BLEGattDisconnect)) ignore,
                 act (\<lambda>w. w\<lparr>bleDeviceRef := None\<rparr>)])])"

definition startBLEStreaming :: "env \<Rightarrow> step" where
  "startBLEStreaming E =
     ifElse (\<lambda>w. bleDeviceRef w = None)
       (act (addLog ErrorLog ''No BLE device connected''))
       (tryCatch
          (block
             [ifThen (\<lambda>w. \<not> serverLive E w)
                (throw (Exn ''Error'' ''GATT server is not connected. Please reconnect the device.'')),
              act (\<lambda>w. w\<lparr>bleHandlerRef := True\<rparr>),
              act (addLog Info ''Starting notifications...''),
              io E BLEStartNotifications,
              act (emit BLEAddListener),
              act (addLog Info ''Notifications started''),
              act (emit (Delay 100)),
              io E (BLEWrite [0xFE, 0x00, 0x53, 0x00, 0x00]),
              act (\<lambda>w. w\<lparr>streamingRef := True\<rparr>),
              act (setIsRunning True),
              act (addLog Info ''BLE streaming started'')])
          (\<lambda>err. block
             [act (addLog ErrorLog (''BLE streaming failed: '' @ exn_message err)),
              act (\<lambda>w. w\<lparr>streamingRef := False\<rparr>),
              act (setIsRunning False)]))"

text \<open>
  The notification listener, on the bytes of the event's value (a view of a buffer of
  its own, so \<^verbatim>\<open>data.byteLength\<close> is the number of bytes of \<^verbatim>\<open>data.buffer\<close>).
\<close>

definition handleBLEData :: "render \<Rightarrow> byte list \<Rightarrow> world \<Rightarrow> world" where
  "handleBLEData r data w =
     (if length data \<ge> 56 then
        (let bytes = data
         in if byteAt bytes 0 = Some 0x00 then
              (let seq = uint (toInt32 (byteAt bytes 1) AND 0x0F);
                   payload = take (56 - 2) (drop 2 bytes);
                   samples = decodeBytesToSamples payload;
                   w1 = (if csvEnabled r then w\<lparr>csvDataRef := csvDataRef w @ samples\<rparr> else w)
               in setLiveData (liveUpdater seq samples) w1)
            else w)
      else w)"

definition stopBLEStreaming :: "env \<Rightarrow> render \<Rightarrow> step" where
  "stopBLEStreaming E r =
     ifElse (\<lambda>w. bleDeviceRef w = None)
       (act (\<lambda>w. w))
       (tryCatch
          (block
             [act (\<lambda>w. w\<lparr>streamingRef := False\<rparr>),
              io E (BLEWrite [0xFE, 0x00, 0x42, 0x00, 0x00]),
              ifThen bleHandlerRef
                (block [act (emit BLERemoveListener), act (\<lambda>w. w\<lparr>bleHandlerRef := False\<rparr>)]),
              io E BLEStopNotifications,
              act (setIsRunning False),
              act (addLog Info ''BLE streaming stopped''),
              saveCSVIfEnabled E r])
          (\<lambda>err. act (addLog ErrorLog (''BLE stop error: '' @ exn_message err))))"

definition setBLEGain :: "env \<Rightarrow> int \<Rightarrow> step" where
  "setBLEGain E newGain =
     ifElse (\<lambda>w. bleDeviceRef w = None)
       (act (\<lambda>w. w))
       (tryCatch
          (block
             [io E (BLEWrite [0xFE, 0x00, 0x47, word_of_int newGain, 0x00]),
              act (addLog Info (''BLE gain set to '' @ intToString 10 newGain))])
          (\<lambda>err. act (addLog ErrorLog (''BLE gain error: '' @ exn_message err))))"

section \<open>Unified controls\<close>

definition handleConnect :: "env \<Rightarrow> render \<Rightarrow> step" where
  "handleConnect E r = (if mode r = Serial then connectSerial E else connectBLE E)"

text \<open>
  \<^verbatim>\<open>handleStart\<close> reads \<^verbatim>\<open>connStatus\<close> twice; both are the value of the render that
  made the handler, whatever \<^verbatim>\<open>setConnStatus\<close> was called with in between.
\<close>

definition handleStart :: "env \<Rightarrow> render \<Rightarrow> step" where
  "handleStart E r =
     block
       [act (addLog Command (toUpperCase (mode r) @ '' START'')),
        act (setLiveData (\<lambda>prev. [])),
        act (\<lambda>w. w\<lparr>st_xStart := 0\<rparr>),
        act (\<lambda>w. w\<lparr>st_zoomRange := 2000\<rparr>),
        act (\<lambda>w. w\<lparr>st_yShift := 0\<rparr>),
        act (\<lambda>w. w\<lparr>st_yZoom := 4200\<rparr>),
        act (\<lambda>w. w\<lparr>csvDataRef := []\<rparr>),
        (if connStatus r \<noteq> Connected
         then block [handleConnect E r, act (emit (Delay 500))]
         else block []),
        (if connStatus r = Connected
         then (if mode r = Serial then startSerialStreaming E r else startBLEStreaming E)
         else act (addLog ErrorLog ''Device not connected. Connection may have failed.''))]"

definition handleStop :: "env \<Rightarrow> render \<Rightarrow> step" where
  "handleStop E r =
     block
       [act (addLog Command (toUpperCase (mode r) @ '' STOP'')),
        (if mode r = Serial then stopSerialStreaming E r else stopBLEStreaming E r)]"

definition handleSendGain :: "env \<Rightarrow> render \<Rightarrow> step" where
  "handleSendGain E r =
     (let gain = Number (gainValue r)
      in if trim (gainValue r) = [] \<or> isNaN gain \<or> \<not> isInteger gain \<or>
            numLess gain 0 \<or> numGreater gain 15
         then act (addLog ErrorLog ''Gain must be an integer between 0 and 15'')
         else tryCatch
                (block
                   [act (addLog Command
                           (toUpperCase (mode r) @ '' SET_GAIN '' @ intToString 10 (intOf gain))),
                    (if mode r = Serial then setSerialGain E (intOf gain) else setBLEGain E (intOf gain)),
                    act (addLog Response (''Gain set to '' @ intToString 10 (intOf gain)))])
                (\<lambda>e. act (addLog ErrorLog
                            (''SET_GAIN failed: '' @
                               (if exn_message e = [] then ''unknown error'' else exn_message e)))))"

section \<open>Reference encoder\<close>

text \<open>
  Modelled from the spec: the encoder of the packed wire format.  The repository only
  decodes (the device produces the frames), so the encoder follows the packing rule the
  spec gives for the decoder: a sample \<open>s\<close> is the 12-bit field \<open>s + 2048\<close>; a pair of
  samples becomes the low byte of the first field, the low byte of the second, and a
  shared byte with the first field's high nibble in its upper half and the second's in
  its lower half.  The hex text writes each byte as two digits, in either case.
\<close>

definition encodePair :: "int \<Rightarrow> int \<Rightarrow> byte list" where
  "encodePair s1 s2 =
     (let raw1 = s1 + 2048;
          raw2 = s2 + 2048
      in [word_of_int (take_bit 8 raw1),
          word_of_int (take_bit 8 raw2),
          word_of_int (push_bit 4 (drop_bit 8 raw1) OR drop_bit 8 raw2)])"

text \<open>Modelled from the spec: the frame of a sample sequence, one triplet per pair of samples.\<close>

fun encodeSamples :: "int list \<Rightarrow> byte list" where
  "encodeSamples (s1 # s2 # rest) = encodePair s1 s2 @ encodeSamples rest"
| "encodeSamples _ = []"

text \<open>Modelled from the spec: the hex text of a frame, two digits per byte, high nibble first.\<close>

definition hexChar :: "bool \<Rightarrow> nat \<Rightarrow> char" where
  "hexChar upper d = (if upper then ''0123456789ABCDEF'' else ''0123456789abcdef'') ! (d mod 16)"

definition hexOfByte :: "bool \<Rightarrow> byte \<Rightarrow> string" where
  "hexOfByte upper b = [hexChar upper (unat b div 16), hexChar upper (unat b mod 16)]"

definition encodeHex :: "bool \<Rightarrow> int list \<Rightarrow> string" where
  "encodeHex upper samples = concat (map (hexOfByte upper) (encodeSamples samples))"


section \<open>Auxiliary functions\<close>

text \<open>
  Used in the proofs only: the decoder's loop as a recursion over triplets of an input
  cut or zero-padded to 54 bytes, and the hex loop as a recursion over pairs of characters.
\<close>

fun decodeTriplets :: "byte list \<Rightarrow> int list" where
  "decodeTriplets (b0 # b1 # b2 # rest) =
     sampleV1 (Some b0) (Some b2) # sampleV2 (Some b1) (Some b2) # decodeTriplets rest"
| "decodeTriplets _ = []"

definition zeroPad :: "byte list \<Rightarrow> byte list" where
  "zeroPad bytes = take 54 (bytes @ replicate 54 0)"

fun hexPairs :: "string \<Rightarrow> int option list" where
  "hexPairs [] = []"
| "hexPairs [c] = [parseInt16 [c]]"
| "hexPairs (c # d # rest) = parseInt16 [c, d] # hexPairs rest"




text \<open>The state and the closure of the first render (the arguments of \<^verbatim>\<open>useState\<close> and \<^verbatim>\<open>useRef\<close>).\<close>

definition initialWorld :: world where
  "initialWorld =
     \<lparr>st_isRunning = False, st_liveData = [], st_connStatus = Disconnected, st_logs = [],
      st_xStart = 0, st_zoomRange = 2000, st_yShift = 0, st_yZoom = 4200,
      serialPortRef = False, serialReaderRef = False, bleDeviceRef = None,
      streamingRef = False, bleHandlerRef = False, csvDataRef = [], trace = []\<rparr>"

definition initialRender :: render where
  "initialRender =
     \<lparr>mode = Serial, gainValue = ''15'', isRunning = False, connStatus = Disconnected,
      csvEnabled = False, csvDir = [], folderHandle = False\<rparr>"

text \<open>
  An environment in which no call throws and the GATT server stays connected, and two
  states in the middle of a streaming session, one per transport.
\<close>

definition quietEnv :: env where
  "quietEnv =
     \<lparr>throws = (\<lambda>past e. None), gattConnected = (\<lambda>past. True),
      supportsWebSerial = True, supportsWebBluetooth = True,
      deviceName = ''PS02'', toISOString = ''2026-01-01T00:00:00.000Z''\<rparr>"

definition serialStreamingWorld :: world where
  "serialStreamingWorld =
     initialWorld\<lparr>st_isRunning := True, st_connStatus := Connected, serialPortRef := True,
                  serialReaderRef := True, streamingRef := True\<rparr>"

definition bleStreamingWorld :: world where
  "bleStreamingWorld =
     initialWorld\<lparr>st_isRunning := True, st_connStatus := Connected,
                  bleDeviceRef := Some (BleDevice True), streamingRef := True,
                  bleHandlerRef := True\<rparr>"

text \<open>The calls \<open>saveCSVIfEnabled\<close> adds to the trace, and the calls on the directory handle.\<close>

definition flushEvents :: "env \<Rightarrow> render \<Rightarrow> world \<Rightarrow> io_event list" where
  "flushEvents E r w = newEvents w (final (saveCSVIfEnabled E r w))"

definition isFSEvent :: "io_event \<Rightarrow> bool" where
  "isFSEvent e = (case e of FSGetFileHandle n \<Rightarrow> True | FSCreateWritable \<Rightarrow> True
                   | FSWrite c \<Rightarrow> True | FSClose \<Rightarrow> True | _ \<Rightarrow> False)"

text \<open>
  The test at the head of \<open>handleSendGain\<close> on its own: the gain it goes on with, or
  \<open>None\<close> when it rejects the input.
\<close>

definition gainAccepted :: "string \<Rightarrow> int option" where
  "gainAccepted s =
     (let gain = Number s
      in if trim s = [] \<or> isNaN gain \<or> \<not> isInteger gain \<or> numLess gain 0 \<or> numGreater gain 15
         then None else Some (intOf gain))"

text \<open>The state after the resets at the head of \<open>handleStart\<close>.\<close>

definition resetForStart :: "render \<Rightarrow> world \<Rightarrow> world" where
  "resetForStart r w =
     (addLog Command (toUpperCase (mode r) @ '' START'') w)
       \<lparr>st_liveData := [], st_xStart := 0, st_zoomRange := 2000, st_yShift := 0,
        st_yZoom := 4200, csvDataRef := []\<rparr>"


section \<open>The decoder's loop\<close>

lemma toInt32_byteAt: "toInt32 (byteAt bytes j) = toInt32 (Some ((bytes @ replicate 54 0) ! j))" if "j < 54"
  using that by (simp add: byteAt_def toInt32_def nth_append)

lemma sampleV1_pad:
  assumes "i < 54" "j < 54"
  shows "sampleV1 (byteAt bytes i) (byteAt bytes j)
       = sampleV1 (Some ((bytes @ replicate 54 0) ! i)) (Some ((bytes @ replicate 54 0) ! j))"
  using assms by (simp add: sampleV1_def toInt32_byteAt)

lemma sampleV2_pad:
  assumes "i < 54" "j < 54"
  shows "sampleV2 (byteAt bytes i) (byteAt bytes j)
       = sampleV2 (Some ((bytes @ replicate 54 0) ! i)) (Some ((bytes @ replicate 54 0) ! j))"
  using assms by (simp add: sampleV2_def toInt32_byteAt)

lemma drop3:
  assumes "i + 3 \<le> length xs"
  shows "drop i xs = xs ! i # xs ! (i + 1) # xs ! (i + 2) # drop (i + 3) xs"
proof -
  have "drop i xs = xs ! i # drop (Suc i) xs"
    using assms by (simp add: Cons_nth_drop_Suc)
  also have "drop (Suc i) xs = xs ! (i + 1) # drop (Suc (Suc i)) xs"
    using assms by (simp add: Cons_nth_drop_Suc)
  also have "drop (Suc (Suc i)) xs = xs ! (i + 2) # drop (i + 3) xs"
    using assms Cons_nth_drop_Suc [of "i + 2" xs] by (simp add: numeral_3_eq_3)
  finally show ?thesis .
qed

lemma decodeLoop_step:
  assumes "i < 54"
  shows "decodeLoop bytes i acc
       = decodeLoop bytes (i + 3)
           (acc @ [sampleV1 (byteAt bytes i) (byteAt bytes (i + 2)),
                   sampleV2 (byteAt bytes (i + 1)) (byteAt bytes (i + 2))])"
  using assms by (subst decodeLoop.simps) (simp add: Let_def)

lemma decodeLoop_triplets:
  assumes "k \<le> 18"
  shows "decodeLoop bytes (3 * k) acc
       = acc @ decodeTriplets (take (54 - 3 * k) (drop (3 * k) (bytes @ replicate 54 0)))"
  using assms
proof (induction "18 - k" arbitrary: k acc)
  case 0
  then have "k = 18" by simp
  then show ?case by (simp add: decodeLoop.simps)
next
  case (Suc n)
  then have k: "k < 18" and n: "n = 18 - (k + 1)" and k1: "k + 1 \<le> 18" by simp_all
  define p where "p = bytes @ replicate 54 0"
  define a where "a = sampleV1 (Some (p ! (3 * k))) (Some (p ! (3 * k + 2)))"
  define b where "b = sampleV2 (Some (p ! (3 * k + 1))) (Some (p ! (3 * k + 2)))"
  have len: "3 * k + 3 \<le> length p" using k by (simp add: p_def)
  have i3: "3 * k + 3 = 3 * (k + 1)" by simp
  have IH: "decodeLoop bytes (3 * (k + 1)) acc'
      = acc' @ decodeTriplets (take (54 - 3 * (k + 1)) (drop (3 * (k + 1)) p))" for acc'
    unfolding p_def using Suc.hyps(1) [OF n k1] .
  have tk: "take (54 - 3 * k) (drop (3 * k) p)
      = p ! (3 * k) # p ! (3 * k + 1) # p ! (3 * k + 2)
          # take (54 - 3 * (k + 1)) (drop (3 * (k + 1)) p)"
  proof -
    have "54 - 3 * k = Suc (Suc (Suc (54 - 3 * (k + 1))))" using k by simp
    then show ?thesis by (subst drop3 [OF len]) (simp add: algebra_simps)
  qed
  have "decodeLoop bytes (3 * k) acc = decodeLoop bytes (3 * k + 3) (acc @ [a, b])"
    using k by (simp add: decodeLoop_step [of "3 * k"] sampleV1_pad sampleV2_pad a_def b_def p_def)
  also have "\<dots> = decodeLoop bytes (3 * (k + 1)) (acc @ [a, b])"
    by (simp only: i3)
  also have "\<dots> = (acc @ [a, b]) @ decodeTriplets (take (54 - 3 * (k + 1)) (drop (3 * (k + 1)) p))"
    by (rule IH)
  also have "\<dots> = acc @ decodeTriplets (take (54 - 3 * k) (drop (3 * k) p))"
    by (simp only: tk decodeTriplets.simps a_def b_def append.simps append_assoc)
  finally show ?case by (simp only: p_def)
qed

lemma decodeBytesToSamples_triplets:
  "decodeBytesToSamples bytes = decodeTriplets (zeroPad bytes)"
  using decodeLoop_triplets [of 0 bytes "[]"] by (simp add: decodeBytesToSamples_def zeroPad_def)


lemma F00_eq: "(0x0F00::int) = push_bit 8 (mask 4)"
  by (simp add: mask_eq_exp_minus_1 push_bit_eq_mult)

lemma and_F00: "(k::int) AND 0x0F00 = push_bit 8 (take_bit 4 (drop_bit 8 k))"
  unfolding F00_eq by (rule bit_eqI) (auto simp add: bit_simps)

lemma and_F00_arith: "(k::int) AND 0x0F00 = 256 * ((k div 256) mod 16)"
  by (simp add: and_F00 push_bit_eq_mult take_bit_eq_mod drop_bit_eq_div)

lemma or_low_byte:
  assumes "0 \<le> b" "b < 256"
  shows "(256 * h) OR b = 256 * h + (b::int)"
proof -
  have b: "b = take_bit 8 b" using assms by (simp add: take_bit_int_eq_self)
  have "push_bit 8 h OR take_bit 8 b = push_bit 8 h + take_bit 8 b"
    by (rule disjunctive_add [symmetric]) (auto simp add: bit_simps)
  then show ?thesis using b by (simp add: push_bit_eq_mult mult.commute)
qed

lemma int_v1:
  assumes "0 \<le> b0" "b0 < 256"
  shows "((push_bit 4 (b2::int) AND 0x0F00) OR b0) = 256 * ((b2 div 16) mod 16) + b0"
proof -
  have "push_bit 4 b2 div 256 = b2 div 16"
    by (simp add: push_bit_eq_mult)
  then show ?thesis using assms by (simp add: and_F00_arith or_low_byte)
qed

lemma int_v2:
  assumes "0 \<le> b1" "b1 < 256"
  shows "((push_bit 8 (b2::int) AND 0x0F00) OR b1) = 256 * (b2 mod 16) + b1"
proof -
  have "push_bit 8 b2 div 256 = b2"
    by (simp add: push_bit_eq_mult)
  then show ?thesis using assms by (simp add: and_F00_arith or_low_byte)
qed

lemma uint_byte_less: "uint (b::byte) < 256"
  using uint_lt2p [of b] by simp

lemma sint_small:
  assumes "uint (w::int32) < 4096"
  shows "sint w = uint w"
proof -
  have "- (2 ^ 31) \<le> (0::int)" by simp
  also have "0 \<le> uint w" by simp
  finally have "- (2 ^ 31) \<le> uint w" .
  moreover have "uint w < 2 ^ 31" using assms by simp
  ultimately have "signed_take_bit 31 (uint w) = uint w"
    by (rule signed_take_bit_int_eq_self)
  then show ?thesis by (simp add: sint_uint)
qed

lemma uint_ucast_byte: "uint (ucast (b::byte) :: int32) = uint b"
  by (rule uint_up_ucast) (simp add: is_up)

lemma uint_shifted_byte:
  assumes "n \<le> 8"
  shows "uint (push_bit n (ucast (b::byte) :: int32)) = push_bit n (uint b)"
proof -
  have "uint b < 2 ^ 8" using uint_lt2p [of b] by simp
  then have "uint b * 2 ^ n < 2 ^ 8 * 2 ^ n" by simp
  also have "(2::int) ^ 8 * 2 ^ n \<le> 2 ^ 8 * 2 ^ 8"
    using assms by (intro mult_left_mono power_increasing) simp_all
  finally have "push_bit n (uint b) < 2 ^ 32" by (simp add: push_bit_eq_mult)
  moreover have "0 \<le> push_bit n (uint b)" by (simp add: push_bit_eq_mult)
  ultimately have "take_bit 32 (push_bit n (uint b)) = push_bit n (uint b)"
    by (simp add: take_bit_int_eq_self)
  then show ?thesis by (simp add: unsigned_push_bit_eq uint_ucast_byte)
qed

lemma uint_packed:
  fixes b0 b2 :: byte
  assumes "n \<le> 8"
  shows "uint ((push_bit n (ucast b2 :: int32) AND 0x0F00) OR ucast b0)
       = (push_bit n (uint b2) AND 0x0F00) OR uint b0"
  using assms by (simp add: uint_or uint_and uint_shifted_byte uint_ucast_byte)

lemma uint_packed_less:
  fixes b0 b2 :: byte
  shows "uint ((push_bit n (ucast b2 :: int32) AND 0x0F00) OR ucast b0) < 4096"
proof -
  have "uint (push_bit n (ucast b2 :: int32) AND 0x0F00) \<le> 0x0F00"
    by (simp add: uint_and AND_upper2)
  then have a: "uint (push_bit n (ucast b2 :: int32) AND 0x0F00) < 2 ^ 12" by simp
  have b: "uint (ucast b0 :: int32) < 2 ^ 12"
    using uint_lt2p [of b0] by (simp add: uint_ucast_byte)
  have "uint (push_bit n (ucast b2 :: int32) AND 0x0F00) OR uint (ucast b0 :: int32) < 2 ^ 12"
    using a b by (intro OR_upper) simp_all
  then show ?thesis by (simp add: uint_or)
qed

lemma sampleV1_int:
  "sampleV1 (Some b0) (Some b2) = ((push_bit 4 (uint b2) AND 0x0F00) OR uint b0) - 2048"
  by (simp add: sampleV1_def toInt32_def sint_small [OF uint_packed_less] uint_packed)

lemma sampleV2_int:
  "sampleV2 (Some b1) (Some b2) = ((push_bit 8 (uint b2) AND 0x0F00) OR uint b1) - 2048"
  by (simp add: sampleV2_def toInt32_def sint_small [OF uint_packed_less] uint_packed)

lemma sampleV1_arith:
  "sampleV1 (Some b0) (Some b2) = 256 * ((uint b2 div 16) mod 16) + uint b0 - 2048"
  by (simp add: sampleV1_int int_v1 uint_byte_less)

lemma sampleV2_arith:
  "sampleV2 (Some b1) (Some b2) = 256 * (uint b2 mod 16) + uint b1 - 2048"
  by (simp add: sampleV2_int int_v2 uint_byte_less)

lemma sampleV1_range: "- 2048 \<le> sampleV1 (Some b0) (Some b2) \<and> sampleV1 (Some b0) (Some b2) \<le> 2047"
proof -
  have "0 \<le> (uint b2 div 16) mod 16" "(uint b2 div 16) mod 16 < 16" by simp_all
  moreover have "0 \<le> uint b0" "uint b0 < 256" using uint_byte_less [of b0] by simp_all
  ultimately show ?thesis unfolding sampleV1_arith by linarith
qed

lemma sampleV2_range: "- 2048 \<le> sampleV2 (Some b1) (Some b2) \<and> sampleV2 (Some b1) (Some b2) \<le> 2047"
proof -
  have "0 \<le> uint b2 mod 16" "uint b2 mod 16 < 16" by simp_all
  moreover have "0 \<le> uint b1" "uint b1 < 256" using uint_byte_less [of b1] by simp_all
  ultimately show ?thesis unfolding sampleV2_arith by linarith
qed

lemma decodeTriplets_length:
  "length (decodeTriplets bs) = 2 * (length bs div 3)"
  by (induction bs rule: decodeTriplets.induct) simp_all

lemma decodeTriplets_range:
  "list_all (\<lambda>v. - 2048 \<le> v \<and> v \<le> 2047) (decodeTriplets bs)"
  by (induction bs rule: decodeTriplets.induct) (simp_all add: sampleV1_range sampleV2_range)

lemma decodeTriplets_concat:
  assumes "length bs = 3 * n"
  shows "decodeTriplets bs
       = concat (map (\<lambda>k. [sampleV1 (Some (bs ! (3 * k))) (Some (bs ! (3 * k + 2))),
                            sampleV2 (Some (bs ! (3 * k + 1))) (Some (bs ! (3 * k + 2)))]) [0..<n])"
  using assms
proof (induction n arbitrary: bs)
  case 0
  then show ?case by simp
next
  case (Suc n)
  then obtain b0 b1 b2 rest where bs: "bs = b0 # b1 # b2 # rest" and rest: "length rest = 3 * n"
    by (cases bs rule: decodeTriplets.cases) auto
  have "map (\<lambda>k. [sampleV1 (Some (bs ! (3 * k))) (Some (bs ! (3 * k + 2))),
                   sampleV2 (Some (bs ! (3 * k + 1))) (Some (bs ! (3 * k + 2)))]) [0..<Suc n]
      = [sampleV1 (Some b0) (Some b2), sampleV2 (Some b1) (Some b2)]
        # map (\<lambda>k. [sampleV1 (Some (rest ! (3 * k))) (Some (rest ! (3 * k + 2))),
                      sampleV2 (Some (rest ! (3 * k + 1))) (Some (rest ! (3 * k + 2)))]) [0..<n]"
    unfolding bs by (simp add: upt_conv_Cons map_Suc_upt [symmetric] del: upt_Suc)
  then show ?case using Suc.IH [OF rest] by (simp add: bs)
qed

lemma zeroPad_54: "length bytes = 54 \<Longrightarrow> zeroPad bytes = bytes"
  by (simp add: zeroPad_def)

lemma zeroPad_length: "length (zeroPad bytes) = 54"
  by (simp add: zeroPad_def)


lemma hexLoop_pairs: "hexLoop s i acc = acc @ hexPairs (drop i s)"
proof (induction s i acc rule: hexLoop.induct)
  case (1 s i acc)
  show ?case
  proof (cases "i < length s")
    case False
    then show ?thesis by (simp add: hexLoop.simps)
  next
    case True
    then obtain c rest where d: "drop i s = c # rest"
      by (cases "drop i s") auto
    have d2: "drop (i + 2) s = drop 1 rest"
      using d by (metis One_nat_def Suc_1 add.commute add_Suc_right drop_Suc_Cons drop_drop plus_1_eq_Suc)
    have "hexLoop s i acc = hexLoop s (i + 2) (acc @ [parseInt16 (substr s i 2)])"
      using True by (subst hexLoop.simps) simp
    also have "\<dots> = (acc @ [parseInt16 (substr s i 2)]) @ hexPairs (drop (i + 2) s)"
      using 1 [OF True] .
    also have "\<dots> = acc @ hexPairs (drop i s)"
      unfolding d d2 substr_def by (cases rest) simp_all
    finally show ?thesis .
  qed
qed

lemma hex_not_space: "isHexDigit c \<Longrightarrow> \<not> isWhiteSpace c"
  by (auto simp add: isHexDigit_def isWhiteSpace_def)

lemma hex_not_special:
  "isHexDigit c \<Longrightarrow> c \<noteq> CHR ''-'' \<and> c \<noteq> CHR ''+'' \<and> c \<noteq> CHR ''x'' \<and> c \<noteq> CHR ''X''"
  by (auto simp add: isHexDigit_def)

lemma parseInt16_pair:
  assumes "isHexDigit c" "isHexDigit d"
  shows "parseInt16 [c, d] = Some (16 * hexDigitValue c + hexDigitValue d)"
  using assms hex_not_space [of c] hex_not_special [of c] hex_not_special [of d]
  by (simp add: parseInt16_def)

lemma below_16: "(n::nat) < 16 \<Longrightarrow> n \<in> {0, 1, 2, 3, 4, 5, 6, 7, 8, 9, 10, 11, 12, 13, 14, 15}"
  by (simp only: insert_iff empty_iff) arith

lemma hexChar_digit:
  assumes "n < 16"
  shows "isHexDigit (hexChar u n) \<and> hexDigitValue (hexChar u n) = int n"
  using below_16 [OF assms] by (cases u) (auto simp add: hexChar_def isHexDigit_def hexDigitValue_def)

lemma parseInt16_hexOfByte: "parseInt16 (hexOfByte u b) = Some (uint b)"
proof -
  have "unat b < 256" using unsigned_less [of b, where ?'a = nat] by simp
  then have h: "unat b div 16 < 16" by simp
  have l: "unat b mod 16 < 16" by simp
  have n: "16 * (unat b div 16) + unat b mod 16 = unat b" by simp
  have "16 * int (unat b div 16) + int (unat b mod 16) = int (16 * (unat b div 16) + unat b mod 16)"
    by (simp only: of_nat_add of_nat_mult of_nat_numeral)
  also have "\<dots> = uint b" by (simp only: n) simp
  finally show ?thesis
    using hexChar_digit [OF h, of u] hexChar_digit [OF l, of u]
    by (simp add: hexOfByte_def parseInt16_pair)
qed

lemma hexPairs_encode: "hexPairs (concat (map (hexOfByte u) bs)) = map (\<lambda>b. Some (uint b)) bs"
proof (induction bs)
  case Nil
  then show ?case by simp
next
  case (Cons b bs)
  have "hexPairs (hexOfByte u b @ rest) = parseInt16 (hexOfByte u b) # hexPairs rest" for rest
    by (simp add: hexOfByte_def)
  then show ?case using Cons by (simp add: parseInt16_hexOfByte)
qed

lemma decodeHex_of_hexOfBytes:
  "decodeHexToSamples (concat (map (hexOfByte u) bs)) = decodeBytesToSamples bs"
proof -
  have "map toUint8 (map (\<lambda>b. Some (uint b)) bs) = bs"
    by (induction bs) (simp_all add: toUint8_def)
  then show ?thesis
    by (simp add: decodeHexToSamples_def hexLoop_pairs hexPairs_encode)
qed


lemma or_low_nibble:
  assumes "0 \<le> b" "b < 16"
  shows "(16 * h) OR b = 16 * h + (b::int)"
proof -
  have b: "b = take_bit 4 b" using assms by (simp add: take_bit_int_eq_self)
  have "push_bit 4 h OR take_bit 4 b = push_bit 4 h + take_bit 4 b"
    by (rule disjunctive_add [symmetric]) (auto simp add: bit_simps)
  then show ?thesis using b by (simp add: push_bit_eq_mult mult.commute)
qed

lemma uint_byte_of_int:
  assumes "0 \<le> k" "k < 256"
  shows "uint (word_of_int k :: byte) = k"
  using assms by (simp add: uint_word_of_int take_bit_eq_mod)

lemma encodePair_bytes:
  assumes "- 2048 \<le> s1" "s1 \<le> 2047" "- 2048 \<le> s2" "s2 \<le> 2047"
  shows "\<exists>b0 b1 b2. encodePair s1 s2 = [b0, b1, b2]
           \<and> uint b0 = (s1 + 2048) mod 256 \<and> uint b1 = (s2 + 2048) mod 256
           \<and> uint b2 = 16 * ((s1 + 2048) div 256) + (s2 + 2048) div 256"
proof -
  define k where "k = push_bit 4 (drop_bit 8 (s1 + 2048)) OR drop_bit 8 (s2 + 2048)"
  have h1: "0 \<le> (s1 + 2048) div 256" "(s1 + 2048) div 256 < 16" using assms by simp_all
  have h2: "0 \<le> (s2 + 2048) div 256" "(s2 + 2048) div 256 < 16" using assms by simp_all
  have k: "k = 16 * ((s1 + 2048) div 256) + (s2 + 2048) div 256"
    unfolding k_def using h2 by (simp add: push_bit_eq_mult drop_bit_eq_div or_low_nibble mult.commute)
  have "0 \<le> k" "k < 256" unfolding k using h1 h2 by linarith+
  then have b2: "uint (word_of_int k :: byte) = 16 * ((s1 + 2048) div 256) + (s2 + 2048) div 256"
    using uint_byte_of_int [of k] k by simp
  have b0: "uint (word_of_int (take_bit 8 (s1 + 2048)) :: byte) = (s1 + 2048) mod 256"
    by (rule trans [OF uint_byte_of_int]) (simp_all add: take_bit_eq_mod)
  have b1: "uint (word_of_int (take_bit 8 (s2 + 2048)) :: byte) = (s2 + 2048) mod 256"
    by (rule trans [OF uint_byte_of_int]) (simp_all add: take_bit_eq_mod)
  have "encodePair s1 s2
      = [word_of_int (take_bit 8 (s1 + 2048)), word_of_int (take_bit 8 (s2 + 2048)), word_of_int k]"
    by (simp only: encodePair_def Let_def k_def)
  then show ?thesis using b0 b1 b2 by blast
qed

lemma decode_encodePair:
  assumes "- 2048 \<le> s1" "s1 \<le> 2047" "- 2048 \<le> s2" "s2 \<le> 2047"
  shows "decodeTriplets (encodePair s1 s2 @ rest) = s1 # s2 # decodeTriplets rest"
proof -
  obtain b0 b1 b2 where e: "encodePair s1 s2 = [b0, b1, b2]"
    and b0: "uint b0 = (s1 + 2048) mod 256" and b1: "uint b1 = (s2 + 2048) mod 256"
    and b2: "uint b2 = 16 * ((s1 + 2048) div 256) + (s2 + 2048) div 256"
    using encodePair_bytes [OF assms] by blast
  have h1: "0 \<le> (s1 + 2048) div 256" "(s1 + 2048) div 256 < 16" using assms by simp_all
  have h2: "0 \<le> (s2 + 2048) div 256" "(s2 + 2048) div 256 < 16" using assms by simp_all
  have d: "uint b2 div 16 = (s1 + 2048) div 256" unfolding b2 using h2 by simp
  have m: "uint b2 mod 16 = (s2 + 2048) div 256" unfolding b2 using h2 by simp
  have v1: "sampleV1 (Some b0) (Some b2) = s1"
    unfolding sampleV1_arith d b0 using h1 by simp
  have v2: "sampleV2 (Some b1) (Some b2) = s2"
    unfolding sampleV2_arith m b1 by simp
  show ?thesis by (simp add: e v1 v2)
qed

lemma decode_encodeSamples:
  assumes "even (length samples)" "list_all (\<lambda>s. - 2048 \<le> s \<and> s \<le> 2047) samples"
  shows "decodeTriplets (encodeSamples samples) = samples"
  using assms
proof (induction samples rule: encodeSamples.induct)
  case (1 s1 s2 rest)
  then show ?case by (simp add: decode_encodePair)
qed simp_all

lemma encodeSamples_length:
  assumes "list_all (\<lambda>s. - 2048 \<le> s \<and> s \<le> 2047) samples"
  shows "length (encodeSamples samples) = 3 * (length samples div 2)"
  using assms
proof (induction samples rule: encodeSamples.induct)
  case (1 s1 s2 rest)
  moreover obtain b0 b1 b2 where "encodePair s1 s2 = [b0, b1, b2]"
    using encodePair_bytes [of s1 s2] 1 by auto
  ultimately show ?case by simp
qed simp_all

lemma encodeHex_length: "length (encodeHex u samples) = 2 * length (encodeSamples samples)"
proof -
  have "length (concat (map (hexOfByte u) bs)) = 2 * length bs" for bs
    by (induction bs) (simp_all add: hexOfByte_def)
  then show ?thesis by (simp add: encodeHex_def)
qed

text \<open>
  Claim C1.  On a frame of 54 bytes \<open>decodeBytesToSamples\<close> returns 36 integers, each in
  \<open>[-2048, 2047]\<close>; they are, triplet by triplet in byte order, the two values
  \<open>(((b2 << 4) & 0x0F00) | b0) - 2048\<close> and \<open>(((b2 << 8) & 0x0F00) | b1) - 2048\<close>;
  a frame that starts with the bytes 0x34, 0x12, 0x01 decodes to -1996 and -1774 first.
\<close>

theorem decode_valid_frame:
  assumes "length bytes = 54"
  shows "length (decodeBytesToSamples bytes) = 36 \<and>
         list_all (\<lambda>v. - 2048 \<le> v \<and> v \<le> 2047) (decodeBytesToSamples bytes) \<and>
         decodeBytesToSamples bytes
           = concat (map (\<lambda>k. [((push_bit 4 (uint (bytes ! (3 * k + 2))) AND 0x0F00)
                                  OR uint (bytes ! (3 * k))) - 2048,
                                ((push_bit 8 (uint (bytes ! (3 * k + 2))) AND 0x0F00)
                                  OR uint (bytes ! (3 * k + 1))) - 2048]) [0..<18]) \<and>
         take 2 (decodeBytesToSamples ([0x34, 0x12, 0x01] @ drop 3 bytes)) = [- 1996, - 1774]"
proof -
  have d: "decodeBytesToSamples bytes = decodeTriplets bytes"
    using assms by (simp add: decodeBytesToSamples_triplets zeroPad_54)
  have "length ([0x34, 0x12, 0x01] @ drop 3 bytes) = 54" using assms by simp
  then have "decodeBytesToSamples ([0x34, 0x12, 0x01] @ drop 3 bytes)
      = decodeTriplets ([0x34, 0x12, 0x01] @ drop 3 bytes)"
    by (simp only: decodeBytesToSamples_triplets zeroPad_54)
  then have fixture: "take 2 (decodeBytesToSamples ([0x34, 0x12, 0x01] @ drop 3 bytes)) = [- 1996, - 1774]"
    by (simp add: sampleV1_arith sampleV2_arith)
  have "length bytes = 3 * 18" using assms by simp
  from decodeTriplets_concat [OF this] have formula: "decodeBytesToSamples bytes
           = concat (map (\<lambda>k. [((push_bit 4 (uint (bytes ! (3 * k + 2))) AND 0x0F00)
                                  OR uint (bytes ! (3 * k))) - 2048,
                                ((push_bit 8 (uint (bytes ! (3 * k + 2))) AND 0x0F00)
                                  OR uint (bytes ! (3 * k + 1))) - 2048]) [0..<18])"
    by (simp only: d sampleV1_int sampleV2_int)
  have "length (decodeBytesToSamples bytes) = 36"
    using assms by (simp add: d decodeTriplets_length)
  moreover have "list_all (\<lambda>v. - 2048 \<le> v \<and> v \<le> 2047) (decodeBytesToSamples bytes)"
    by (simp only: d decodeTriplets_range)
  ultimately show ?thesis using formula fixture by blast
qed

theorem decode_valid_frame_witness:
  "length ([0x34, 0x12, 0x01] @ replicate 51 (0xFF::byte)) = 54 \<and>
   length (decodeBytesToSamples ([0x34, 0x12, 0x01] @ replicate 51 0xFF)) = 36 \<and>
   take 2 (decodeBytesToSamples ([0x34, 0x12, 0x01] @ replicate 51 0xFF)) = [- 1996, - 1774]"
proof -
  have len: "length ([0x34, 0x12, 0x01] @ replicate 51 (0xFF::byte)) = 54" by simp
  from decode_valid_frame [OF len]
  have "length (decodeBytesToSamples ([0x34, 0x12, 0x01] @ replicate 51 0xFF)) = 36"
    and "take 2 (decodeBytesToSamples ([0x34, 0x12, 0x01] @ drop 3 ([0x34, 0x12, 0x01] @ replicate 51 0xFF)))
           = [- 1996, - 1774]"
    by blast+
  then show ?thesis using len by simp
qed

text \<open>
  Claim C10.  On more than 54 bytes \<open>decodeBytesToSamples\<close> returns the 36 samples of
  the first 54 bytes: trailing bytes are ignored.
\<close>

theorem decode_ignores_trailing_bytes:
  assumes "length bytes > 54"
  shows "decodeBytesToSamples bytes = decodeBytesToSamples (take 54 bytes) \<and>
         length (decodeBytesToSamples bytes) = 36"
proof -
  have "zeroPad bytes = zeroPad (take 54 bytes)" using assms by (simp add: zeroPad_def)
  then show ?thesis
    by (simp add: decodeBytesToSamples_triplets decodeTriplets_length zeroPad_length)
qed

theorem decode_ignores_trailing_bytes_witness:
  "length (replicate 54 (0x11::byte) @ [0xAA, 0xBB]) > 54 \<and>
   decodeBytesToSamples (replicate 54 0x11 @ [0xAA, 0xBB]) = decodeBytesToSamples (replicate 54 0x11)"
  using decode_ignores_trailing_bytes [of "replicate 54 0x11 @ [0xAA, 0xBB]"] by simp

text \<open>
  Claim C9.  Encoding 36 samples of \<open>[-2048, 2047]\<close> with the reference encoder, as a
  frame of 54 bytes or as its hex text of 108 characters (in either case of the
  letters), and decoding the result gives the samples back.
\<close>

theorem decode_inverts_encoder:
  assumes "length samples = 36" "list_all (\<lambda>s. - 2048 \<le> s \<and> s \<le> 2047) samples"
  shows "length (encodeSamples samples) = 54 \<and>
         decodeBytesToSamples (encodeSamples samples) = samples \<and>
         length (encodeHex upper samples) = 108 \<and>
         decodeHexToSamples (encodeHex upper samples) = samples"
proof -
  have len: "length (encodeSamples samples) = 54"
    using assms by (simp add: encodeSamples_length)
  have "decodeBytesToSamples (encodeSamples samples) = decodeTriplets (encodeSamples samples)"
    by (simp only: decodeBytesToSamples_triplets zeroPad_54 [OF len])
  also have "\<dots> = samples" using assms by (intro decode_encodeSamples) simp_all
  finally have bytes: "decodeBytesToSamples (encodeSamples samples) = samples" .
  then show ?thesis
    by (simp add: len encodeHex_length) (simp add: encodeHex_def decodeHex_of_hexOfBytes)
qed

theorem decode_inverts_encoder_witness:
  "decodeBytesToSamples (encodeSamples (map (\<lambda>k. 117 * int k - 2048) [0..<36]))
     = map (\<lambda>k. 117 * int k - 2048) [0..<36] \<and>
   decodeHexToSamples (encodeHex True (map (\<lambda>k. 117 * int k - 2048) [0..<36]))
     = map (\<lambda>k. 117 * int k - 2048) [0..<36]"
proof -
  have len: "length (map (\<lambda>k. 117 * int k - 2048) [0..<36]) = 36" by simp
  have rng: "list_all (\<lambda>s. - 2048 \<le> s \<and> s \<le> 2047) (map (\<lambda>k. 117 * int k - 2048) [0..<36])"
    by (auto simp add: list_all_iff)
  from decode_inverts_encoder [OF len rng, of True] show ?thesis by blast
qed

section \<open>Live buffer\<close>

lemma push_points:
  "foldl (\<lambda>next s. next @ [f s]) prev samples = prev @ map f samples"
  by (induction samples arbitrary: prev) simp_all

lemma liveUpdater_eq:
  "liveUpdater seq samples prev
     = map (\<lambda>(i, p). p\<lparr>pt_x := int i\<rparr>)
         (enumerate 0
            (drop (length prev + length samples - MAX_PLOT)
               (prev @ map (\<lambda>s. \<lparr>pt_x = 0, pt_raw = s, pt_filtered = s, pt_seq = Some seq\<rparr>) samples)))"
  by (simp add: liveUpdater_def push_points Let_def)

lemma reindex_x:
  "map pt_x (map (\<lambda>(i, p). p\<lparr>pt_x := int i\<rparr>) (enumerate n ps)) = map int [n..<n + length ps]"
  by (induction ps arbitrary: n) (simp_all add: upt_conv_Cons del: upt_Suc)

lemma reindex_raw:
  "map pt_raw (map (\<lambda>(i, p). p\<lparr>pt_x := int i\<rparr>) (enumerate n ps)) = map pt_raw ps"
  by (induction ps arbitrary: n) simp_all

text \<open>
  Claim C3.  The buffer \<open>liveUpdater\<close> returns holds the last \<open>MAX_PLOT = 2000\<close> of the
  previous points followed by the new samples, so at most 2000, in arrival order, and
  the point at position \<open>i\<close> has \<open>x = i\<close>; and this updater is what an accepted
  Bluetooth packet and a matching serial line apply to the live buffer.
\<close>

theorem live_buffer_capped_and_indexed:
  "length (liveUpdater seq samples prev) = min MAX_PLOT (length prev + length samples) \<and>
   length (liveUpdater seq samples prev) \<le> 2000 \<and>
   map pt_x (liveUpdater seq samples prev) = map int [0..<length (liveUpdater seq samples prev)] \<and>
   map pt_raw (liveUpdater seq samples prev)
     = drop (length prev + length samples - 2000) (map pt_raw prev @ samples) \<and>
   (length data \<ge> 56 \<and> data ! 0 = 0 \<longrightarrow>
      (\<exists>seq. st_liveData (handleBLEData r data w)
         = liveUpdater seq (decodeBytesToSamples (take 54 (drop 2 data))) (st_liveData w))) \<and>
   (matchFrame line = Some (m1, m2) \<longrightarrow>
      (\<exists>seq. st_liveData (processLine r line w)
         = liveUpdater seq (decodeHexToSamples m2) (st_liveData w)))"
proof -
  have len: "length (liveUpdater seq samples prev) = min MAX_PLOT (length prev + length samples)"
    by (simp add: liveUpdater_eq)
  have x: "map pt_x (liveUpdater seq samples prev) = map int [0..<length (liveUpdater seq samples prev)]"
    unfolding liveUpdater_eq by (subst reindex_x) simp
  have raw: "map pt_raw (liveUpdater seq samples prev)
     = drop (length prev + length samples - 2000) (map pt_raw prev @ samples)"
    unfolding liveUpdater_eq by (subst reindex_raw) (simp add: drop_map MAX_PLOT_def comp_def)
  have ble: "length data \<ge> 56 \<and> data ! 0 = 0 \<longrightarrow>
      (\<exists>seq. st_liveData (handleBLEData r data w)
         = liveUpdater seq (decodeBytesToSamples (take 54 (drop 2 data))) (st_liveData w))"
    by (auto simp add: handleBLEData_def byteAt_def Let_def setLiveData_def)
  have ser: "matchFrame line = Some (m1, m2) \<longrightarrow>
      (\<exists>seq. st_liveData (processLine r line w)
         = liveUpdater seq (decodeHexToSamples m2) (st_liveData w))"
    by (auto simp add: processLine_def matchFrame_def Let_def setLiveData_def)
  show ?thesis using len x raw ble ser by (simp add: MAX_PLOT_def)
qed



section \<open>Serial lines\<close>
























lemma fixture_line_matches:
  "matchFrame (''1A:'' @ replicate 108 (CHR ''0'')) = Some (''1A'', replicate 108 (CHR ''0''))"
  by code_simp



theorem live_buffer_capped_and_indexed_witness:
  "length ([0x00, 0x05, 0x34, 0x12, 0x01] @ replicate 51 (0::byte)) \<ge> 56 \<and>
   ([0x00, 0x05, 0x34, 0x12, 0x01] @ replicate 51 (0::byte)) ! 0 = 0 \<and>
   (\<exists>seq. st_liveData (handleBLEData initialRender ([0x00, 0x05, 0x34, 0x12, 0x01] @ replicate 51 0) initialWorld)
      = liveUpdater seq
          (decodeBytesToSamples (take 54 (drop 2 ([0x00, 0x05, 0x34, 0x12, 0x01] @ replicate 51 0))))
          (st_liveData initialWorld)) \<and>
   matchFrame (''1A:'' @ replicate 108 (CHR ''0'')) = Some (''1A'', replicate 108 (CHR ''0'')) \<and>
   (\<exists>seq. st_liveData (processLine initialRender (''1A:'' @ replicate 108 (CHR ''0'')) initialWorld)
      = liveUpdater seq (decodeHexToSamples (replicate 108 (CHR ''0''))) (st_liveData initialWorld))"
proof -
  note m = fixture_line_matches
  have d: "length ([0x00, 0x05, 0x34, 0x12, 0x01] @ replicate 51 (0::byte)) \<ge> 56"
    "([0x00, 0x05, 0x34, 0x12, 0x01] @ replicate 51 (0::byte)) ! 0 = 0" by simp_all
  from live_buffer_capped_and_indexed
    [of _ _ _ "[0x00, 0x05, 0x34, 0x12, 0x01] @ replicate 51 0" initialRender initialWorld
        "''1A:'' @ replicate 108 (CHR ''0'')" "''1A''" "replicate 108 (CHR ''0'')"]
  show ?thesis using m d by blast
qed


section \<open>Inputs of another length\<close>





section \<open>Stopping and flushing\<close>

subsection \<open>Running statements\<close>

declare block.simps(2) [simp del]

lemma block_Cons: "block (s # ss) w = (case s w of Done w' \<Rightarrow> block ss w' | Thrown x w' \<Rightarrow> Thrown x w')"
  by (simp add: block.simps(2))

lemma final_simps [simp]: "final (Done w) = w" "final (Thrown x w) = w"
  by (simp_all add: final_def)

lemma block_act: "block (act f # ss) w = block ss (f w)"
  by (simp add: act_def block_Cons)

lemma block_io:
  "block (io E e # ss) w
     = (case throws E (trace w) e of None \<Rightarrow> block ss (emit e w) | Some x \<Rightarrow> Thrown x (emit e w))"
  by (simp add: io_def block_Cons split: option.splits)

lemma block_ifThen: "block (ifThen c s # ss) w = (if c w then block (s # ss) w else block ss w)"
  by (simp add: ifThen_def block_Cons)

lemma block_block: "block (block xs # ss) w = block (xs @ ss) w"
  by (induction xs arbitrary: w) (simp_all add: block_Cons split: outcome.splits)

lemma block_if: "block ((if b then s else t) # ss) w = (if b then block (s # ss) w else block (t # ss) w)"
  by simp

lemma block_throw: "block (throw x # ss) w = Thrown x w"
  by (simp add: throw_def block_Cons)

lemmas block_steps = block_act block_io block_ifThen block_block block_if block_throw append.simps

lemma emit_fields [simp]:
  "st_isRunning (emit e w) = st_isRunning w"
  "st_liveData (emit e w) = st_liveData w"
  "st_connStatus (emit e w) = st_connStatus w"
  "st_logs (emit e w) = st_logs w"
  "serialPortRef (emit e w) = serialPortRef w"
  "serialReaderRef (emit e w) = serialReaderRef w"
  "bleDeviceRef (emit e w) = bleDeviceRef w"
  "streamingRef (emit e w) = streamingRef w"
  "bleHandlerRef (emit e w) = bleHandlerRef w"
  "csvDataRef (emit e w) = csvDataRef w"
  "trace (emit e w) = trace w @ [e]"
  by (simp_all add: emit_def)

lemma addLog_fields [simp]:
  "st_isRunning (addLog t m w) = st_isRunning w"
  "st_liveData (addLog t m w) = st_liveData w"
  "st_connStatus (addLog t m w) = st_connStatus w"
  "st_logs (addLog t m w) = st_logs w @ [\<lparr>logType = t, message = m\<rparr>]"
  "serialPortRef (addLog t m w) = serialPortRef w"
  "serialReaderRef (addLog t m w) = serialReaderRef w"
  "bleDeviceRef (addLog t m w) = bleDeviceRef w"
  "streamingRef (addLog t m w) = streamingRef w"
  "bleHandlerRef (addLog t m w) = bleHandlerRef w"
  "csvDataRef (addLog t m w) = csvDataRef w"
  "trace (addLog t m w) = trace w"
  by (simp_all add: addLog_def)

lemma setIsRunning_fields [simp]:
  "st_isRunning (setIsRunning v w) = v"
  "st_liveData (setIsRunning v w) = st_liveData w"
  "st_connStatus (setIsRunning v w) = st_connStatus w"
  "st_logs (setIsRunning v w) = st_logs w"
  "serialPortRef (setIsRunning v w) = serialPortRef w"
  "serialReaderRef (setIsRunning v w) = serialReaderRef w"
  "bleDeviceRef (setIsRunning v w) = bleDeviceRef w"
  "streamingRef (setIsRunning v w) = streamingRef w"
  "bleHandlerRef (setIsRunning v w) = bleHandlerRef w"
  "csvDataRef (setIsRunning v w) = csvDataRef w"
  "trace (setIsRunning v w) = trace w"
  by (simp_all add: setIsRunning_def)

lemma setConnStatus_fields [simp]:
  "st_isRunning (setConnStatus v w) = st_isRunning w"
  "st_liveData (setConnStatus v w) = st_liveData w"
  "st_connStatus (setConnStatus v w) = v"
  "st_logs (setConnStatus v w) = st_logs w"
  "serialPortRef (setConnStatus v w) = serialPortRef w"
  "serialReaderRef (setConnStatus v w) = serialReaderRef w"
  "bleDeviceRef (setConnStatus v w) = bleDeviceRef w"
  "streamingRef (setConnStatus v w) = streamingRef w"
  "bleHandlerRef (setConnStatus v w) = bleHandlerRef w"
  "csvDataRef (setConnStatus v w) = csvDataRef w"
  "trace (setConnStatus v w) = trace w"
  by (simp_all add: setConnStatus_def)

subsection \<open>Flush\<close>

lemma saveCSV_done: "\<exists>w'. saveCSVIfEnabled E r w = Done w' \<and> csvDataRef w' = []"
  by (auto simp add: saveCSVIfEnabled_def ifElse_def tryCatch_def block_Cons act_def io_def emit_def
      addLog_def Let_def split: option.splits)

lemma saveCSV_events:
  "\<exists>fs. trace (final (saveCSVIfEnabled E r w)) = trace w @ fs \<and> list_all isFSEvent fs"
  by (auto simp add: saveCSVIfEnabled_def ifElse_def tryCatch_def block_Cons act_def io_def emit_def
      addLog_def final_def isFSEvent_def Let_def split: option.splits)



lemma flush_fs: "e \<in> set (flushEvents E r w) \<Longrightarrow> isFSEvent e"
  using saveCSV_events [of E r w] by (auto simp add: flushEvents_def newEvents_def list_all_iff)

lemma flush_no_transport [simp]:
  "SerialWrite bs \<notin> set (flushEvents E r w)"
  "BLEWrite bs \<notin> set (flushEvents E r w)"
  "BLERemoveListener \<notin> set (flushEvents E r w)"
  "BLEStopNotifications \<notin> set (flushEvents E r w)"
  "SerialReaderCancel \<notin> set (flushEvents E r w)"
  by (auto dest: flush_fs simp add: isFSEvent_def)



lemma readerWoken_fields [simp]:
  "st_isRunning (readerWoken w) = st_isRunning w"
  "st_liveData (readerWoken w) = st_liveData w"
  "st_connStatus (readerWoken w) = st_connStatus w"
  "serialPortRef (readerWoken w) = serialPortRef w"
  "serialReaderRef (readerWoken w) = False"
  "bleDeviceRef (readerWoken w) = bleDeviceRef w"
  "streamingRef (readerWoken w) = streamingRef w"
  "bleHandlerRef (readerWoken w) = bleHandlerRef w"
  "csvDataRef (readerWoken w) = csvDataRef w"
  "trace (readerWoken w) = trace w @ [SerialReaderReleaseLock]"
  by (simp_all add: readerWoken_def readFinish_def)






lemma newEvents_append: "trace w' = trace w @ evs \<Longrightarrow> newEvents w w' = evs"
  by (simp add: newEvents_def)






text \<open>
  Claim C8.  \<open>saveCSVIfEnabled\<close> always ends normally with an empty CSV buffer,
  whether it leaves early, writes the file, or a call on the directory handle throws; when
  CSV is disabled, no folder is selected or the buffer is empty it makes no call at all
  and changes nothing but the buffer.  The only calls it ever makes are on the
  directory handle.
\<close>

theorem csv_buffer_cleared_by_flush:
  "(\<exists>w'. saveCSVIfEnabled E r w = Done w' \<and> csvDataRef w' = []) \<and>
   (\<not> csvEnabled r \<or> \<not> folderHandle r \<or> csvDataRef w = [] \<longrightarrow>
      saveCSVIfEnabled E r w = Done (w\<lparr>csvDataRef := []\<rparr>) \<and>
      newEvents w (final (saveCSVIfEnabled E r w)) = []) \<and>
   list_all isFSEvent (newEvents w (final (saveCSVIfEnabled E r w)))"
proof -
  have early: "\<not> csvEnabled r \<or> \<not> folderHandle r \<or> csvDataRef w = [] \<longrightarrow>
      saveCSVIfEnabled E r w = Done (w\<lparr>csvDataRef := []\<rparr>)"
    by (auto simp add: saveCSVIfEnabled_def ifElse_def act_def)
  then have "\<not> csvEnabled r \<or> \<not> folderHandle r \<or> csvDataRef w = [] \<longrightarrow>
      newEvents w (final (saveCSVIfEnabled E r w)) = []"
    by (auto simp add: newEvents_def)
  moreover have "list_all isFSEvent (newEvents w (final (saveCSVIfEnabled E r w)))"
    using flush_fs [of _ E r w] by (auto simp add: flushEvents_def list_all_iff)
  ultimately show ?thesis using early saveCSV_done [of E r w] by blast
qed


lemma flush_example:
  "newEvents (initialWorld\<lparr>csvDataRef := [1, - 2]\<rparr>)
     (final (saveCSVIfEnabled quietEnv (initialRender\<lparr>csvEnabled := True, folderHandle := True\<rparr>)
        (initialWorld\<lparr>csvDataRef := [1, - 2]\<rparr>)))
   = [FSGetFileHandle ''data_2026-01-01T00-00-00.csv'', FSCreateWritable,
      FSWrite (''index,raw'' @ [CHR 0x0A] @ ''0,1'' @ [CHR 0x0A] @ ''1,-2'' @ [CHR 0x0A]), FSClose]"
  by code_simp

theorem csv_buffer_cleared_by_flush_witness:
  "\<not> csvEnabled initialRender \<and>
   saveCSVIfEnabled quietEnv initialRender (initialWorld\<lparr>csvDataRef := [1, - 2]\<rparr>)
     = Done ((initialWorld\<lparr>csvDataRef := [1, - 2]\<rparr>)\<lparr>csvDataRef := []\<rparr>) \<and>
   newEvents (initialWorld\<lparr>csvDataRef := [1, - 2]\<rparr>)
     (final (saveCSVIfEnabled quietEnv initialRender (initialWorld\<lparr>csvDataRef := [1, - 2]\<rparr>))) = []"
proof -
  have "\<not> csvEnabled initialRender" by (simp add: initialRender_def)
  with csv_buffer_cleared_by_flush [of quietEnv initialRender "initialWorld\<lparr>csvDataRef := [1, - 2]\<rparr>"]
  show ?thesis by blast
qed

section \<open>Gain command\<close>

lemma gainAccepted_iff:
  "gainAccepted s = Some n \<longleftrightarrow>
     trim s \<noteq> [] \<and> 0 \<le> n \<and> n \<le> 15 \<and> Number s = Finite (of_int n)"
proof (cases "Number s")
  case NaN
  then show ?thesis by (simp add: gainAccepted_def isNaN_def)
next
  case (Infinity neg)
  then show ?thesis by (simp add: gainAccepted_def isInteger_def)
next
  case (Finite q)
  show ?thesis
  proof
    assume "gainAccepted s = Some n"
    then have t: "trim s \<noteq> []" and i: "q = of_int \<lfloor>q\<rfloor>" and lo: "\<not> q < 0" and hi: "\<not> 15 < q"
      and n: "n = \<lfloor>q\<rfloor>"
      using Finite
      by (auto simp add: gainAccepted_def isNaN_def isInteger_def numLess_def numGreater_def
          intOf_def Let_def split: if_splits)
    have q: "q = of_int n" using i n by simp
    have "0 \<le> n" using lo unfolding q by simp
    moreover have "n \<le> 15" using hi unfolding q by simp
    ultimately show "trim s \<noteq> [] \<and> 0 \<le> n \<and> n \<le> 15 \<and> Number s = Finite (of_int n)"
      using t q Finite by simp
  next
    assume a: "trim s \<noteq> [] \<and> 0 \<le> n \<and> n \<le> 15 \<and> Number s = Finite (of_int n)"
    then have q: "q = of_int n" using Finite by simp
    show "gainAccepted s = Some n"
      using a Finite
      by (simp add: gainAccepted_def isNaN_def isInteger_def numLess_def numGreater_def
          intOf_def Let_def q)
  qed
qed

lemma setSerialGain_done: "setSerialGain E n w = Done (final (setSerialGain E n w))"
  by (simp add: setSerialGain_def ifElse_def tryCatch_def block_steps act_def Let_def
      split: option.splits)

lemma setBLEGain_done: "setBLEGain E n w = Done (final (setBLEGain E n w))"
  by (simp add: setBLEGain_def ifElse_def tryCatch_def block_steps act_def split: option.splits)

lemma setSerialGain_trace:
  "\<exists>evs. trace (final (setSerialGain E n w)) = trace w @ evs \<and>
     (\<not> serialPortRef w \<longrightarrow> evs = []) \<and>
     (serialPortRef w \<and> throws E (trace w) SerialGetWriter = None \<longrightarrow>
        (\<exists>rest. evs = [SerialGetWriter, SerialWrite (encode (''G'' @ intToString 16 n @ CRLF))] @ rest))"
  by (simp add: setSerialGain_def ifElse_def tryCatch_def block_steps act_def Let_def
      split: option.splits)

lemma setBLEGain_trace:
  "\<exists>evs. trace (final (setBLEGain E n w)) = trace w @ evs \<and>
     (bleDeviceRef w = None \<longrightarrow> evs = []) \<and>
     (bleDeviceRef w \<noteq> None \<longrightarrow> evs = [BLEWrite [0xFE, 0x00, 0x47, word_of_int n, 0x00]])"
  by (simp add: setBLEGain_def ifElse_def tryCatch_def block_steps act_def split: option.splits)

lemma setSerialGain_case:
  "(case setSerialGain E n w of Done w' \<Rightarrow> f w' | Thrown x w' \<Rightarrow> g x w')
     = f (final (setSerialGain E n w))"
  by (subst setSerialGain_done) simp

lemma setBLEGain_case:
  "(case setBLEGain E n w of Done w' \<Rightarrow> f w' | Thrown x w' \<Rightarrow> g x w')
     = f (final (setBLEGain E n w))"
  by (subst setBLEGain_done) simp

lemma handleSendGain_reject:
  assumes "gainAccepted (gainValue r) = None"
  shows "handleSendGain E r w = Done (addLog ErrorLog ''Gain must be an integer between 0 and 15'' w)"
proof -
  have c: "trim (gainValue r) = [] \<or> isNaN (Number (gainValue r)) \<or> \<not> isInteger (Number (gainValue r))
         \<or> numLess (Number (gainValue r)) 0 \<or> numGreater (Number (gainValue r)) 15"
    using assms by (simp add: gainAccepted_def Let_def split: if_splits)
  show ?thesis
    unfolding handleSendGain_def Let_def by (subst if_P [OF c]) (simp add: act_def)
qed

lemma handleSendGain_accept:
  assumes "gainAccepted (gainValue r) = Some n"
  shows "handleSendGain E r w
       = Done (addLog Response (''Gain set to '' @ intToString 10 n)
           (final ((if mode r = Serial then setSerialGain E n else setBLEGain E n)
              (addLog Command (toUpperCase (mode r) @ '' SET_GAIN '' @ intToString 10 n) w))))"
proof -
  have g: "intOf (Number (gainValue r)) = n"
    and ok: "\<not> (trim (gainValue r) = [] \<or> isNaN (Number (gainValue r)) \<or> \<not> isInteger (Number (gainValue r))
         \<or> numLess (Number (gainValue r)) 0 \<or> numGreater (Number (gainValue r)) 15)"
    using assms by (auto simp add: gainAccepted_def Let_def split: if_splits)
  show ?thesis
    unfolding handleSendGain_def Let_def
    by (subst if_not_P [OF ok])
      (simp add: g tryCatch_def block_act block_Cons setSerialGain_case setBLEGain_case act_def)
qed

text \<open>
  Claim C4.  \<open>handleSendGain\<close> goes on to the active transport's set-gain function
  exactly when the input is not blank and \<open>Number\<close> of it is an integer \<open>n\<close> with
  \<open>0 \<le> n \<le> 15\<close> (this is \<open>gainAccepted = Some n\<close>); the serial function then writes
  \<open>G\<close>, the upper-case hex digit of \<open>n\<close>, CR LF, and the Bluetooth one writes
  \<open>FE 00 47 n 00\<close>.  Any other input only adds the error entry to the log: no call is
  made and nothing else changes.
\<close>

theorem gain_forwarded_iff_valid:
  "(gainAccepted (gainValue r) = None \<longrightarrow>
      handleSendGain E r w = Done (addLog ErrorLog ''Gain must be an integer between 0 and 15'' w) \<and>
      newEvents w (final (handleSendGain E r w)) = []) \<and>
   (gainAccepted (gainValue r) = Some n \<longrightarrow>
      handleSendGain E r w
        = Done (addLog Response (''Gain set to '' @ intToString 10 n)
            (final ((if mode r = Serial then setSerialGain E n else setBLEGain E n)
               (addLog Command (toUpperCase (mode r) @ '' SET_GAIN '' @ intToString 10 n) w))))) \<and>
   (gainAccepted s = Some n \<longleftrightarrow>
      trim s \<noteq> [] \<and> 0 \<le> n \<and> n \<le> 15 \<and> Number s = Finite (of_int n)) \<and>
   (serialPortRef w \<and> throws E (trace w) SerialGetWriter = None \<longrightarrow>
      (\<exists>rest. newEvents w (final (setSerialGain E n w))
         = [SerialGetWriter, SerialWrite (encode (''G'' @ intToString 16 n @ CRLF))] @ rest)) \<and>
   (bleDeviceRef w \<noteq> None \<longrightarrow>
      newEvents w (final (setBLEGain E n w)) = [BLEWrite [0xFE, 0x00, 0x47, word_of_int n, 0x00]])"
proof -
  have rej: "gainAccepted (gainValue r) = None \<longrightarrow>
      handleSendGain E r w = Done (addLog ErrorLog ''Gain must be an integer between 0 and 15'' w) \<and>
      newEvents w (final (handleSendGain E r w)) = []"
    by (simp add: handleSendGain_reject newEvents_def)
  have acc: "gainAccepted (gainValue r) = Some n \<longrightarrow>
      handleSendGain E r w
        = Done (addLog Response (''Gain set to '' @ intToString 10 n)
            (final ((if mode r = Serial then setSerialGain E n else setBLEGain E n)
               (addLog Command (toUpperCase (mode r) @ '' SET_GAIN '' @ intToString 10 n) w))))"
    using handleSendGain_accept [of r n E w] by blast
  obtain evs where s: "trace (final (setSerialGain E n w)) = trace w @ evs"
    and s1: "serialPortRef w \<and> throws E (trace w) SerialGetWriter = None \<longrightarrow>
        (\<exists>rest. evs = [SerialGetWriter, SerialWrite (encode (''G'' @ intToString 16 n @ CRLF))] @ rest)"
    using setSerialGain_trace [of E n w] by blast
  obtain bvs where b: "trace (final (setBLEGain E n w)) = trace w @ bvs"
    and b1: "bleDeviceRef w \<noteq> None \<longrightarrow> bvs = [BLEWrite [0xFE, 0x00, 0x47, word_of_int n, 0x00]]"
    using setBLEGain_trace [of E n w] by blast
  show ?thesis
    unfolding newEvents_append [OF s] newEvents_append [OF b]
    using rej acc gainAccepted_iff [of s n] s1 b1 by blast
qed

lemma gainAccepted_examples:
  "map gainAccepted [''-1'', ''16'', ''3.5'', [], ''abc'', ''0'', ''15'']
     = [None, None, None, None, None, Some 0, Some 15]"
  by code_simp

lemma gainAccepted_more_examples:
  "map gainAccepted [''  '', ''0xF'', '' 7 '', ''1e1'', ''15.0'', ''-0'', ''Infinity'', ''1 2'', ''15.5'']
     = [None, Some 15, Some 7, Some 10, Some 15, Some 0, None, None, None]"
  by code_simp

text \<open>
  The conversion rounds: \<open>0.1\<close> is the binary64 value next to it, an odd integer just
  above \<open>2 ^ 53\<close> goes to its even neighbour, and a literal close enough to 15 is 15.
\<close>

lemma Number_rounding_examples:
  "Number ''0.1'' = Finite (3602879701896397 / 2 ^ 55) \<and>
   Number ''9007199254740993'' = Finite 9007199254740992 \<and>
   Number ''14.99999999999999999999'' = Finite 15 \<and>
   gainAccepted ''14.99999999999999999999'' = Some 15"
  by code_simp

lemma gain_command_bytes:
  "encode (''G'' @ intToString 16 15 @ CRLF) = [0x47, 0x46, 0x0D, 0x0A] \<and>
   encode (''G'' @ intToString 16 0 @ CRLF) = [0x47, 0x30, 0x0D, 0x0A]"
  by code_simp

theorem gain_forwarded_iff_valid_witness:
  "handleSendGain quietEnv (initialRender\<lparr>gainValue := ''-1''\<rparr>) serialStreamingWorld
     = Done (addLog ErrorLog ''Gain must be an integer between 0 and 15'' serialStreamingWorld) \<and>
   handleSendGain quietEnv (initialRender\<lparr>gainValue := ''16''\<rparr>) serialStreamingWorld
     = Done (addLog ErrorLog ''Gain must be an integer between 0 and 15'' serialStreamingWorld) \<and>
   handleSendGain quietEnv (initialRender\<lparr>gainValue := ''3.5''\<rparr>) serialStreamingWorld
     = Done (addLog ErrorLog ''Gain must be an integer between 0 and 15'' serialStreamingWorld) \<and>
   handleSendGain quietEnv (initialRender\<lparr>gainValue := []\<rparr>) serialStreamingWorld
     = Done (addLog ErrorLog ''Gain must be an integer between 0 and 15'' serialStreamingWorld) \<and>
   handleSendGain quietEnv (initialRender\<lparr>gainValue := ''abc''\<rparr>) serialStreamingWorld
     = Done (addLog ErrorLog ''Gain must be an integer between 0 and 15'' serialStreamingWorld) \<and>
   handleSendGain quietEnv (initialRender\<lparr>gainValue := ''0''\<rparr>) serialStreamingWorld
     = Done (addLog Response (''Gain set to '' @ intToString 10 0)
         (final (setSerialGain quietEnv 0
            (addLog Command (''SERIAL SET_GAIN '' @ intToString 10 0) serialStreamingWorld)))) \<and>
   handleSendGain quietEnv (initialRender\<lparr>gainValue := ''15''\<rparr>) serialStreamingWorld
     = Done (addLog Response (''Gain set to '' @ intToString 10 15)
         (final (setSerialGain quietEnv 15
            (addLog Command (''SERIAL SET_GAIN '' @ intToString 10 15) serialStreamingWorld)))) \<and>
   (\<exists>rest. newEvents serialStreamingWorld (final (setSerialGain quietEnv 15 serialStreamingWorld))
      = [SerialGetWriter, SerialWrite [0x47, 0x46, 0x0D, 0x0A]] @ rest) \<and>
   newEvents bleStreamingWorld (final (setBLEGain quietEnv 15 bleStreamingWorld))
     = [BLEWrite [0xFE, 0x00, 0x47, 0x0F, 0x00]]"
proof -
  have g: "gainAccepted ''-1'' = None" "gainAccepted ''16'' = None" "gainAccepted ''3.5'' = None"
    "gainAccepted [] = None" "gainAccepted ''abc'' = None"
    "gainAccepted ''0'' = Some 0" "gainAccepted ''15'' = Some 15"
    using gainAccepted_examples by simp_all
  have m: "mode (initialRender\<lparr>gainValue := v\<rparr>) = Serial"
    "gainValue (initialRender\<lparr>gainValue := v\<rparr>) = v" for v
    by (simp_all add: initialRender_def)
  have p: "serialPortRef serialStreamingWorld \<and> throws quietEnv (trace serialStreamingWorld) SerialGetWriter = None"
    by (simp add: serialStreamingWorld_def quietEnv_def)
  have d: "bleDeviceRef bleStreamingWorld \<noteq> None" by (simp add: bleStreamingWorld_def)
  note t = gain_forwarded_iff_valid [where E = quietEnv and w = serialStreamingWorld]
  have r1: "handleSendGain quietEnv (initialRender\<lparr>gainValue := ''-1''\<rparr>) serialStreamingWorld
     = Done (addLog ErrorLog ''Gain must be an integer between 0 and 15'' serialStreamingWorld)"
    using t [of "initialRender\<lparr>gainValue := ''-1''\<rparr>"] g m by simp
  have r2: "handleSendGain quietEnv (initialRender\<lparr>gainValue := ''16''\<rparr>) serialStreamingWorld
     = Done (addLog ErrorLog ''Gain must be an integer between 0 and 15'' serialStreamingWorld)"
    using t [of "initialRender\<lparr>gainValue := ''16''\<rparr>"] g m by simp
  have r3: "handleSendGain quietEnv (initialRender\<lparr>gainValue := ''3.5''\<rparr>) serialStreamingWorld
     = Done (addLog ErrorLog ''Gain must be an integer between 0 and 15'' serialStreamingWorld)"
    using t [of "initialRender\<lparr>gainValue := ''3.5''\<rparr>"] g m by simp
  have r4: "handleSendGain quietEnv (initialRender\<lparr>gainValue := []\<rparr>) serialStreamingWorld
     = Done (addLog ErrorLog ''Gain must be an integer between 0 and 15'' serialStreamingWorld)"
    using t [of "initialRender\<lparr>gainValue := []\<rparr>"] g m by simp
  have r5: "handleSendGain quietEnv (initialRender\<lparr>gainValue := ''abc''\<rparr>) serialStreamingWorld
     = Done (addLog ErrorLog ''Gain must be an integer between 0 and 15'' serialStreamingWorld)"
    using t [of "initialRender\<lparr>gainValue := ''abc''\<rparr>"] g m by simp
  have a0: "handleSendGain quietEnv (initialRender\<lparr>gainValue := ''0''\<rparr>) serialStreamingWorld
     = Done (addLog Response (''Gain set to '' @ intToString 10 0)
         (final (setSerialGain quietEnv 0
            (addLog Command (''SERIAL SET_GAIN '' @ intToString 10 0) serialStreamingWorld))))"
    using t [of "initialRender\<lparr>gainValue := ''0''\<rparr>" 0] g m by (simp add: toUpperCase_def)
  have a15: "handleSendGain quietEnv (initialRender\<lparr>gainValue := ''15''\<rparr>) serialStreamingWorld
     = Done (addLog Response (''Gain set to '' @ intToString 10 15)
         (final (setSerialGain quietEnv 15
            (addLog Command (''SERIAL SET_GAIN '' @ intToString 10 15) serialStreamingWorld))))"
    using t [of "initialRender\<lparr>gainValue := ''15''\<rparr>" 15] g m by (simp add: toUpperCase_def)
  have w15: "\<exists>rest. newEvents serialStreamingWorld (final (setSerialGain quietEnv 15 serialStreamingWorld))
      = [SerialGetWriter, SerialWrite [0x47, 0x46, 0x0D, 0x0A]] @ rest"
    using t [of _ 15] p gain_command_bytes by simp
  have b15: "newEvents bleStreamingWorld (final (setBLEGain quietEnv 15 bleStreamingWorld))
     = [BLEWrite [0xFE, 0x00, 0x47, 0x0F, 0x00]]"
    using gain_forwarded_iff_valid [where E = quietEnv and w = bleStreamingWorld and n = 15] d by simp
  show ?thesis using r1 r2 r3 r4 r5 a0 a15 w15 b15 by blast
qed


section \<open>Start\<close>

lemma block_tryCatch:
  "block (tryCatch b h # ss) w
     = (case b w of Done w' \<Rightarrow> block ss w' | Thrown x w' \<Rightarrow> block (h x # ss) w')"
  by (simp add: block_Cons tryCatch_def split: outcome.splits)

lemma block_ignore: "block (ignore x # ss) w = block ss w"
  by (simp add: block_Cons ignore_def)

lemma block_ifElse: "block (ifElse c s t # ss) w = (if c w then block (s # ss) w else block (t # ss) w)"
  by (simp add: block_Cons ifElse_def)

lemmas block_more = block_steps block_tryCatch block_ignore block_ifElse

lemma tryCatch_done:
  assumes "\<And>x w'. h x w' = Done (final (h x w'))"
  shows "tryCatch b h w = Done (final (tryCatch b h w))"
proof (cases "b w")
  case (Done w')
  then show ?thesis by (simp add: tryCatch_def)
next
  case (Thrown x w')
  then show ?thesis using assms [of x w'] by (simp add: tryCatch_def)
qed

lemma connectSerial_done: "connectSerial E w = Done (final (connectSerial E w))"
  unfolding connectSerial_def
  by (rule tryCatch_done)
    (simp add: block_more io_def ifThen_def split: option.splits)

lemma connectBLE_done: "connectBLE E w = Done (final (connectBLE E w))"
  unfolding connectBLE_def
  by (rule tryCatch_done)
    (simp add: block_more io_def ifThen_def split: option.splits)

lemma handleConnect_case:
  "(case handleConnect E r w of Done w' \<Rightarrow> f w' | Thrown x w' \<Rightarrow> g x w')
     = f (final (handleConnect E r w))"
proof -
  have "handleConnect E r w = Done (final (handleConnect E r w))"
    using connectSerial_done [of E w] connectBLE_done [of E w] by (simp add: handleConnect_def)
  then show ?thesis by (metis final_simps(1) outcome.simps(5))
qed

text \<open>
  What \<open>handleStart\<close> does in general.  When the render that made the handler had a
  status other than \<open>Connected\<close>, it connects, waits, and then always logs the error:
  the second test reads the same captured status, so the start of streaming is never
  reached, whatever the connect did.  When the captured status is \<open>Connected\<close>, it goes
  straight to the transport's start function.
\<close>

lemma handleStart_with_stale_status:
  "(connStatus r \<noteq> Connected \<longrightarrow>
      handleStart E r w
        = Done (addLog ErrorLog ''Device not connected. Connection may have failed.''
            (emit (Delay 500) (final (handleConnect E r (resetForStart r w)))))) \<and>
   (connStatus r = Connected \<longrightarrow>
      handleStart E r w
        = (if mode r = Serial then startSerialStreaming E r else startBLEStreaming E)
            (resetForStart r w))"
  by (simp add: handleStart_def block_more block_Cons [of "handleConnect E r"] handleConnect_case
      block_Cons [of "startSerialStreaming E r"] block_Cons [of "startBLEStreaming E"]
      setLiveData_def resetForStart_def addLog_def split: outcome.splits)

text \<open>
  Claim C6 at a failing input: the first press of Start on the freshly loaded page, with
  a serial port that is selected and opens without error.  The connect succeeds (the
  port is held and the status set to \<open>Connected\<close>), yet no start command is written,
  streaming does not begin, and the error is logged.  A second press, from the next
  render, starts streaming.
\<close>


theorem handleStart_reports_failure_after_connecting:
  "connStatus initialRender = Disconnected \<and>
   handleStart quietEnv initialRender initialWorld
     = Done (final (handleStart quietEnv initialRender initialWorld)) \<and>
   st_connStatus (final (handleStart quietEnv initialRender initialWorld)) = Connected \<and>
   serialPortRef (final (handleStart quietEnv initialRender initialWorld)) \<and>
   trace (final (handleStart quietEnv initialRender initialWorld))
     = [SerialRequestPort, SerialOpen, Delay 500] \<and>
   \<not> streamingRef (final (handleStart quietEnv initialRender initialWorld)) \<and>
   \<not> st_isRunning (final (handleStart quietEnv initialRender initialWorld)) \<and>
   st_logs (final (handleStart quietEnv initialRender initialWorld))
     = [\<lparr>logType = Command, message = ''SERIAL START''\<rparr>,
        \<lparr>logType = Info, message = ''Requesting serial port...''\<rparr>,
        \<lparr>logType = Info, message = ''Serial port opened (115200 baud)''\<rparr>,
        \<lparr>logType = Info, message = ''Serial device connected and ready''\<rparr>,
        \<lparr>logType = ErrorLog, message = ''Device not connected. Connection may have failed.''\<rparr>] \<and>
   newEvents (final (handleStart quietEnv initialRender initialWorld))
     (final (handleStart quietEnv (initialRender\<lparr>connStatus := Connected\<rparr>)
        (final (handleStart quietEnv initialRender initialWorld))))
     = [SerialGetWriter, SerialWrite (encode (''S0'' @ CRLF)), SerialWriterReleaseLock,
        SerialGetReader, SerialRead]"
  by code_simp

end
